theory Spec2Isabelle
  imports Main "HOL-Library.Multiset"
begin

section \<open>The command-line front end of the sandbox (core/cuckoo/main.py)\<close>

text \<open>
  The module is a set of click commands that call collaborators living in other
  packages (working-directory storage, the settings maker, the submission functions, the
  shutdown registry, the subsystem entry points). The commands are embedded as functions
  that take the collaborators' behaviour as parameters and return the outcome of the
  command together with the ordered log of every collaborator call, every value yielded
  and every line printed. Python strings are lists of characters; an exception is a value.
\<close>

subsection \<open>Strings: the built-in methods the module calls\<close>

type_synonym path = string

text \<open>
  \<open>s.split(sep, maxsplit)\<close> for a one-character separator: scan from the left, cut at
  each separator while cuts remain. \<open>None\<close> is Python's default \<open>maxsplit = -1\<close>
  (no limit). The scan keeps the characters read since the last cut.
\<close>

fun py_split_from :: "char \<Rightarrow> nat option \<Rightarrow> string \<Rightarrow> string \<Rightarrow> string list" where
  "py_split_from sep m cur [] = [cur]"
| "py_split_from sep m cur (c # cs) =
     (if c = sep \<and> m \<noteq> Some 0
      then cur # py_split_from sep (map_option (\<lambda>k. k - 1) m) [] cs
      else py_split_from sep m (cur @ [c]) cs)"

definition py_split :: "char \<Rightarrow> nat option \<Rightarrow> string \<Rightarrow> string list" where
  "py_split sep m s = py_split_from sep m [] s"

text \<open>
  \<open>str.isspace\<close> on one character, for the code points below 256 that a \<open>char\<close>
  holds: tab to carriage return, the four separators 28..31, space, NEL and the
  no-break space.
\<close>

definition py_isspace :: "char \<Rightarrow> bool" where
  "py_isspace c = ((of_char c :: nat) \<in> {9, 10, 11, 12, 13, 28, 29, 30, 31, 32, 133, 160})"

text \<open>
  \<open>s.strip()\<close>: the index of the first non-space character from the left, the index
  after the last non-space character from the right, and the slice between them.
\<close>

definition py_strip :: "string \<Rightarrow> string" where
  "py_strip s =
     (let i = length (takeWhile py_isspace s);
          j = length s - length (takeWhile py_isspace (rev s))
      in take (j - i) (drop i s))"

text \<open>\<open>filter(None, xs)\<close> on strings keeps the truthy, that is the non-empty, ones.\<close>

definition filter_None :: "string list \<Rightarrow> string list" where
  "filter_None xs = filter (\<lambda>t. t \<noteq> []) xs"

text \<open>\<open>os.path.basename\<close> on a POSIX path: what follows the last slash.\<close>

definition basename :: "path \<Rightarrow> string" where
  "basename p = rev (takeWhile (\<lambda>c. c \<noteq> CHR ''/'') (rev p))"

subsection \<open>Exceptions, outcomes and the log\<close>

text \<open>
  The exception classes the module names in its handlers, the exit raised by
  \<open>exit_error\<close>, the failure the working-directory storage reports for an existing
  path, and one constructor for every other exception (named by its class), which no
  handler of the module catches.
\<close>

datatype exn =
    SubmissionError string
  | StartupError string
  | InvalidCWDError string
  | AlreadyExists string
  | SystemExit int
  | OtherException string

datatype 'a outcome = Return 'a | Raise exn

text \<open>
  Settings as the submission functions receive them: timeout, priority, the manual flag
  and the ordered platform entries, each a platform name with an optional OS version.
\<close>

record settings =
  timeout :: int
  priority :: int
  manual :: bool
  platforms :: "(string \<times> string option) list"

text \<open>
  The third component of a yielded triple is \<open>None\<close>, the literal message of the
  existence check, or the caught \<open>SubmissionError\<close> object itself.
\<close>

datatype error_value = Message string | Caught_SubmissionError string

type_synonym result = "string option \<times> string \<times> error_value option"

definition analysis_id :: "result \<Rightarrow> string option" where
  "analysis_id r = fst r"

definition target_of :: "result \<Rightarrow> string" where
  "target_of r = fst (snd r)"

definition error_of :: "result \<Rightarrow> error_value option" where
  "error_of r = snd (snd r)"

datatype loglevel = VERBOSE | DEBUG | INFO | WARNING

datatype shutdown_action =
    Stopmsg string
  | Registered_by_subsystem nat

record machine_args =
  arg_machinery :: string
  arg_name :: string
  arg_label :: string
  arg_ip :: string
  arg_platform :: string
  arg_os_version :: "string option"
  arg_snapshot :: "string option"
  arg_interface :: "string option"
  arg_tags :: "string list"

text \<open>
  What a run leaves behind, in order: the collaborator calls, the values a generator
  yields, and the lines printed.
\<close>

datatype event =
    Call_os_path_exists path
  | Call_enumerate_files path
  | Call_submit_file path settings string
  | Call_submit_url string settings
  | Call_notify
  | Call_set_machinesdump_path
  | Yield result
  | Print_error string
  | Print_info string
  | Print_warning string
  | Print string
  | Call_os_path_isdir path
  | Call_cwd_exists path
  | Call_cwd_is_valid path
  | Call_cwd_create path
  | Call_cwd_set path
  | Call_cwd_update_missing
  | Call_create_configurations
  | Call_monitor_exists
  | Call_register_shutdown shutdown_action int
  | Call_registered_shutdowns
  | Run_shutdown shutdown_action
  | Call_start_cuckoo loglevel
  | Call_start_cuckoo_controller loglevel
  | Call_start_importmode loglevel
  | Call_add_machine machine_args

text \<open>
  The state a command threads: the world outside the process (the file system, the
  collaborators' own state), which only collaborators read and change, and the log.
\<close>

record 'w st =
  world :: 'w
  log :: "event list"

definition emit :: "event \<Rightarrow> 'w st \<Rightarrow> 'w st" where
  "emit ev s = s\<lparr>log := log s @ [ev]\<rparr>"

definition set_world :: "'w \<Rightarrow> 'w st \<Rightarrow> 'w st" where
  "set_world w s = s\<lparr>world := w\<rparr>"

definition start :: "'w \<Rightarrow> 'w st" where
  "start w = \<lparr>world = w, log = []\<rparr>"

definition print_error :: "string \<Rightarrow> 'w st \<Rightarrow> 'w st" where
  "print_error msg s = emit (Print_error msg) s"

definition print_info :: "string \<Rightarrow> 'w st \<Rightarrow> 'w st" where
  "print_info msg s = emit (Print_info msg) s"

definition print_warning :: "string \<Rightarrow> 'w st \<Rightarrow> 'w st" where
  "print_warning msg s = emit (Print_warning msg) s"

text \<open>
  Modelled from the spec: \<open>exit_error\<close> of cuckoo.common.log is not among the sources.
  The spec's exit convention: an error reaching the top level prints one message and
  exits non-zero. The exit is Python's \<open>SystemExit\<close>, an exception, so an enclosing
  \<open>finally\<close> block still runs.
\<close>

definition exit_error :: "string \<Rightarrow> 'w st \<Rightarrow> 'a outcome \<times> 'w st" where
  "exit_error msg s = (Raise (SystemExit 1), print_error msg s)"

text \<open>The values a run yielded, read off its log.\<close>

fun yielded :: "event list \<Rightarrow> result list" where
  "yielded [] = []"
| "yielded (Yield r # evs) = r # yielded evs"
| "yielded (_ # evs) = yielded evs"

definition results :: "'w st \<Rightarrow> result list" where
  "results s = yielded (log s)"

subsection \<open>The settings helper\<close>

text \<open>
  Modelled from the spec: the settings maker of cuckoo.common.submit is not among the
  sources. The spec's SettingsBuilder accumulates, in any order, a timeout, a priority,
  the manual flag and platform entries; every \<open>add_platform\<close> call appends one entry
  and nothing is deduplicated.
\<close>

record settings_helper =
  h_timeout :: "int option"
  h_priority :: "int option"
  h_manual :: "bool option"
  h_platforms :: "(string \<times> string option) list"

definition new_settings :: settings_helper where
  "new_settings = \<lparr>h_timeout = None, h_priority = None, h_manual = None, h_platforms = []\<rparr>"

definition set_timeout :: "int \<Rightarrow> settings_helper \<Rightarrow> settings_helper" where
  "set_timeout t h = h\<lparr>h_timeout := Some t\<rparr>"

definition set_priority :: "int \<Rightarrow> settings_helper \<Rightarrow> settings_helper" where
  "set_priority p h = h\<lparr>h_priority := Some p\<rparr>"

definition set_manual :: "bool \<Rightarrow> settings_helper \<Rightarrow> settings_helper" where
  "set_manual m h = h\<lparr>h_manual := Some m\<rparr>"

definition add_platform :: "string \<Rightarrow> string option \<Rightarrow> settings_helper \<Rightarrow> settings_helper" where
  "add_platform p v h = h\<lparr>h_platforms := h_platforms h @ [(p, v)]\<rparr>"

text \<open>
  Modelled from the spec: \<open>make_settings\<close> is the spec's Build. It checks that the
  fields are present and in range (the timeout is an integer above zero), fails naming
  the first invalid field, and otherwise returns the settings. The failure is raised as
  the class the command's handler names, \<open>SubmissionError\<close>. The parameter \<open>verify\<close>
  stands for whatever further checks the settings maker makes on the assembled value
  (it returns the name of an offending field, or \<open>None\<close>).
\<close>

definition make_settings :: "(settings \<Rightarrow> string option) \<Rightarrow> settings_helper \<Rightarrow> exn + settings" where
  "make_settings verify h =
     (case h_timeout h of
        None \<Rightarrow> Inl (SubmissionError ''timeout'')
      | Some t \<Rightarrow>
          if t \<le> 0 then Inl (SubmissionError ''timeout'')
          else (case h_priority h of
             None \<Rightarrow> Inl (SubmissionError ''priority'')
           | Some p \<Rightarrow>
               (case h_manual h of
                  None \<Rightarrow> Inl (SubmissionError ''manual'')
                | Some m \<Rightarrow>
                    (let s = \<lparr>timeout = t, priority = p, manual = m, platforms = h_platforms h\<rparr>
                     in case verify s of
                          Some field \<Rightarrow> Inl (SubmissionError field)
                        | None \<Rightarrow> Inr s))))"

subsection \<open>The submit command: building the settings\<close>

text \<open>
  The loop over the \<open>--platform\<close> options (lines 221 to 231): each token is split at
  its first comma; two pieces are a platform and an OS version, one piece is a platform
  alone. Indexing an empty list would raise \<open>IndexError\<close>.
\<close>

fun add_platforms :: "string list \<Rightarrow> settings_helper \<Rightarrow> exn + settings_helper" where
  "add_platforms [] h = Inr h"
| "add_platforms (p_v # rest) h =
     (let platform_version = py_split CHR '','' (Some 1) p_v
      in if length platform_version = 2
         then add_platforms rest
                (add_platform (platform_version ! 0) (Some (platform_version ! 1)) h)
         else (case platform_version of
                 [] \<Rightarrow> Inl (OtherException ''IndexError'')
               | p # _ \<Rightarrow> add_platforms rest (add_platform p None h)))"

text \<open>Lines 216 to 233: the helper calls of the command, then \<open>make_settings\<close>.\<close>

definition submission_settings ::
  "(settings \<Rightarrow> string option) \<Rightarrow> string list \<Rightarrow> int \<Rightarrow> int \<Rightarrow> exn + settings" where
  "submission_settings verify platform timeout_opt priority_opt =
     (let s_helper = new_settings;
          s_helper = set_timeout timeout_opt s_helper;
          s_helper = set_priority priority_opt s_helper;
          s_helper = set_manual False s_helper
      in case add_platforms platform s_helper of
           Inl x \<Rightarrow> Inl x
         | Inr s_helper \<Rightarrow> make_settings verify s_helper)"

subsection \<open>The dispatcher: the two generators\<close>

text \<open>
  The collaborators of the submit command. Each takes the world and returns what the
  call returns or raises, with the world it leaves; the two file-system reads leave the
  world as it is.
\<close>

record 'w submit_env =
  os_path_exists :: "'w \<Rightarrow> path \<Rightarrow> bool"
  enumerate_files :: "'w \<Rightarrow> path \<Rightarrow> path list"
  submit_file :: "'w \<Rightarrow> path \<Rightarrow> settings \<Rightarrow> string \<Rightarrow> (exn + string) \<times> 'w"
  submit_url :: "'w \<Rightarrow> string \<Rightarrow> settings \<Rightarrow> (exn + string) \<times> 'w"
  notify :: "'w \<Rightarrow> exn option \<times> 'w"
  set_machinesdump_path :: "'w \<Rightarrow> exn option \<times> 'w"
  verify_settings :: "settings \<Rightarrow> string option"

text \<open>
  A generator runs interleaved with the body of the \<open>for\<close> loop that consumes it: at
  each \<open>yield\<close> the value is handed over, the body runs, and the generator resumes.
  The body is a parameter; \<open>no_body\<close> only collects.
\<close>

type_synonym 'w body = "result \<Rightarrow> 'w st \<Rightarrow> 'w st"

definition yield :: "'w body \<Rightarrow> result \<Rightarrow> 'w st \<Rightarrow> 'w st" where
  "yield body r s = body r (emit (Yield r) s)"

definition no_body :: "'w body" where
  "no_body r s = s"

text \<open>
  The handler \<open>except submit.SubmissionError as e\<close> around one submission: an analysis
  id is yielded with no error, a \<open>SubmissionError\<close> is yielded as the error with no
  id, and any other exception leaves the generator.
\<close>

definition submitted :: "'w body \<Rightarrow> string \<Rightarrow> (exn + string) \<times> 'w \<Rightarrow> 'w st \<Rightarrow> exn option \<times> 'w st" where
  "submitted body u r s =
     (case r of
        (Inr aid, w) \<Rightarrow> (None, yield body (Some aid, u, None) (set_world w s))
      | (Inl (SubmissionError e), w) \<Rightarrow>
          (None, yield body (None, u, Some (Caught_SubmissionError e)) (set_world w s))
      | (Inl x, w) \<Rightarrow> (Some x, set_world w s))"

text \<open>The first loop of \<open>_submit_files\<close> (lines 170 to 174).\<close>

fun submit_files_resolve ::
  "'w submit_env \<Rightarrow> 'w body \<Rightarrow> path list \<Rightarrow> path list \<Rightarrow> 'w st \<Rightarrow> path list \<times> 'w st" where
  "submit_files_resolve env body [] files s = (files, s)"
| "submit_files_resolve env body (p # targets) files s =
     (let s1 = emit (Call_os_path_exists p) s;
          s2 = (if \<not> os_path_exists env (world s1) p
                then yield body (None, p, Some (Message ''No such file or directory'')) s1
                else s1);
          s3 = emit (Call_enumerate_files p) s2
      in submit_files_resolve env body targets (files @ enumerate_files env (world s3) p) s3)"

text \<open>The second loop of \<open>_submit_files\<close> (lines 176 to 183).\<close>

fun submit_files_each ::
  "'w submit_env \<Rightarrow> 'w body \<Rightarrow> settings \<Rightarrow> path list \<Rightarrow> 'w st \<Rightarrow> exn option \<times> 'w st" where
  "submit_files_each env body stg [] s = (None, s)"
| "submit_files_each env body stg (p # files) s =
     (let s1 = emit (Call_submit_file p stg (basename p)) s
      in case submitted body p (submit_file env (world s1) p stg (basename p)) s1 of
           (Some x, s2) \<Rightarrow> (Some x, s2)
         | (None, s2) \<Rightarrow> submit_files_each env body stg files s2)"

text \<open>\<open>_submit_files\<close> (the leading underscore is not part of an Isabelle name).\<close>

definition submit_files ::
  "'w submit_env \<Rightarrow> 'w body \<Rightarrow> settings \<Rightarrow> path list \<Rightarrow> 'w st \<Rightarrow> exn option \<times> 'w st" where
  "submit_files env body stg targets s =
     (case submit_files_resolve env body targets [] s of
        (files, s1) \<Rightarrow> submit_files_each env body stg files s1)"

text \<open>\<open>_submit_urls\<close> (lines 185 to 192).\<close>

fun submit_urls ::
  "'w submit_env \<Rightarrow> 'w body \<Rightarrow> settings \<Rightarrow> string list \<Rightarrow> 'w st \<Rightarrow> exn option \<times> 'w st" where
  "submit_urls env body stg [] s = (None, s)"
| "submit_urls env body stg (u # targets) s =
     (let s1 = emit (Call_submit_url u stg) s
      in case submitted body u (submit_url env (world s1) u stg) s1 of
           (Some x, s2) \<Rightarrow> (Some x, s2)
         | (None, s2) \<Rightarrow> submit_urls env body stg targets s2)"

subsection \<open>The submit command\<close>

text \<open>Truthiness of the error component, and \<open>str\<close> of the formatted components.\<close>

fun truthy_error :: "error_value option \<Rightarrow> bool" where
  "truthy_error None = False"
| "truthy_error (Some (Message m)) = (m \<noteq> [])"
| "truthy_error (Some (Caught_SubmissionError e)) = True"

fun str_error :: "error_value option \<Rightarrow> string" where
  "str_error None = ''None''"
| "str_error (Some (Message m)) = m"
| "str_error (Some (Caught_SubmissionError e)) = e"

fun str_id :: "string option \<Rightarrow> string" where
  "str_id None = ''None''"
| "str_id (Some a) = a"

text \<open>The body of the \<open>for\<close> loop of the command (lines 244 to 247).\<close>

definition report :: "string \<Rightarrow> 'w body" where
  "report kind r s =
     (case r of (aid, tgt, error) \<Rightarrow>
        if truthy_error error
        then print_error (''Failed to submit '' @ kind @ '': '' @ tgt @ ''. '' @ str_error error) s
        else print_info (''Submitted '' @ kind @ '': '' @ str_id aid @ '' -> '' @ tgt) s)"

text \<open>
  The \<open>finally\<close> block (lines 249 to 252): one \<open>submit.notify()\<close>; a
  \<open>SubmissionError\<close> from it is printed as a warning, anything else is raised.
\<close>

definition notify_finally :: "'w submit_env \<Rightarrow> 'w st \<Rightarrow> exn option \<times> 'w st" where
  "notify_finally env s =
     (let s1 = emit Call_notify s
      in case notify env (world s1) of
           (None, w) \<Rightarrow> (None, set_world w s1)
         | (Some (SubmissionError e), w) \<Rightarrow> (None, print_warning e (set_world w s1))
         | (Some x, w) \<Rightarrow> (Some x, set_world w s1))"

text \<open>
  \<open>try: ... finally: ...\<close>: an exception raised by the \<open>finally\<close> block replaces
  the pending one; otherwise the pending one, if any, is raised again.
\<close>

definition after_finally :: "exn option \<Rightarrow> exn option \<Rightarrow> unit outcome" where
  "after_finally pending raised =
     (case raised of
        Some x \<Rightarrow> Raise x
      | None \<Rightarrow> (case pending of Some x \<Rightarrow> Raise x | None \<Rightarrow> Return ()))"

text \<open>
  Lines 237 to 247: the generator chosen by \<open>--url\<close>, consumed by the \<open>for\<close>
  loop that reports each result.
\<close>

definition run_submitter ::
  "'w submit_env \<Rightarrow> settings \<Rightarrow> string list \<Rightarrow> bool \<Rightarrow> 'w st \<Rightarrow> exn option \<times> 'w st" where
  "run_submitter env stg target url s =
     (if url then submit_urls env (report ''URL'') stg target s
      else submit_files env (report ''file'') stg target s)"

text \<open>Lines 242 to 252, once the settings are built.\<close>

definition submission_dispatch ::
  "'w submit_env \<Rightarrow> settings \<Rightarrow> string list \<Rightarrow> bool \<Rightarrow> 'w st \<Rightarrow> unit outcome \<times> 'w st" where
  "submission_dispatch env stg target url s =
     (case run_submitter env stg target url s of
        (pending, s1) \<Rightarrow>
          (case notify_finally env s1 of
             (raised, s2) \<Rightarrow> (after_finally pending raised, s2)))"

text \<open>The command \<open>submit\<close> (lines 205 to 252).\<close>

definition submission ::
  "'w submit_env \<Rightarrow> string list \<Rightarrow> bool \<Rightarrow> string list \<Rightarrow> int \<Rightarrow> int \<Rightarrow> 'w st
     \<Rightarrow> unit outcome \<times> 'w st" where
  "submission env target url platform timeout_opt priority_opt s =
     (let s1 = emit Call_set_machinesdump_path s
      in case set_machinesdump_path env (world s1) of
           (Some (SubmissionError e), w) \<Rightarrow>
             exit_error (''Submission failed: '' @ e) (set_world w s1)
         | (Some x, w) \<Rightarrow> (Raise x, set_world w s1)
         | (None, w) \<Rightarrow>
             (case submission_settings (verify_settings env) platform timeout_opt priority_opt of
                Inl (SubmissionError e) \<Rightarrow>
                  exit_error (''Submission failed: '' @ e) (set_world w s1)
              | Inl x \<Rightarrow> (Raise x, set_world w s1)
              | Inr stg \<Rightarrow> submission_dispatch env stg target url (set_world w s1)))"

subsection \<open>The command machine add\<close>

record 'w machine_env =
  add_machine :: "'w \<Rightarrow> machine_args \<Rightarrow> exn option \<times> 'w"

text \<open>The \<open>tags\<close> argument of the call (line 159).\<close>

definition machine_add_tags :: "string \<Rightarrow> string list" where
  "machine_add_tags tags = filter_None (map py_strip (py_split CHR '','' None tags))"

text \<open>\<open>machine_add\<close> (lines 151 to 163).\<close>

definition machine_add ::
  "'w machine_env \<Rightarrow> string \<Rightarrow> string \<Rightarrow> string \<Rightarrow> string \<Rightarrow> string \<Rightarrow> string option
     \<Rightarrow> string option \<Rightarrow> string option \<Rightarrow> string \<Rightarrow> 'w st \<Rightarrow> unit outcome \<times> 'w st" where
  "machine_add env machinery name label ip platform os_version snapshot interface tags s =
     (let args = \<lparr>arg_machinery = machinery, arg_name = name, arg_label = label,
                  arg_ip = ip, arg_platform = platform, arg_os_version = os_version,
                  arg_snapshot = snapshot, arg_interface = interface,
                  arg_tags = machine_add_tags tags\<rparr>;
          s1 = emit (Call_add_machine args) s
      in case add_machine env (world s1) args of
           (None, w) \<Rightarrow>
             (Return (),
              print_info (''Added machine '' @ name @ '' to machinery '' @ machinery)
                (set_world w s1))
         | (Some (StartupError e), w) \<Rightarrow>
             exit_error (''Failed to add machine. '' @ e) (set_world w s1)
         | (Some x, w) \<Rightarrow> (Raise x, set_world w s1))"

subsection \<open>The working directory and the subsystems: collaborators\<close>

text \<open>
  The collaborators of \<open>main\<close>, \<open>createcwd\<close> and \<open>importmode\<close>. The reads
  (\<open>os.path.isdir\<close>, \<open>os.path.exists\<close>, \<open>cuckoocwd.exists\<close>,
  \<open>cuckoocwd.is_valid\<close>, the presence of the monitor) leave the world as it is. A
  subsystem entry point returns what it raised, if anything, and the shutdown actions it
  registered while it ran, each a number with its order.
\<close>

record 'w core_env =
  cuckoocwd_DEFAULT :: path
  cuckoocwd_exists :: "'w \<Rightarrow> path \<Rightarrow> bool"
  cuckoocwd_is_valid :: "'w \<Rightarrow> path \<Rightarrow> bool"
  cuckoocwd_set :: "'w \<Rightarrow> path \<Rightarrow> exn option \<times> 'w"
  cuckoocwd_update_missing :: "'w \<Rightarrow> exn option \<times> 'w"
  build_skeleton :: "'w \<Rightarrow> path \<Rightarrow> exn option \<times> 'w"
  exists_on_disk :: "'w \<Rightarrow> path \<Rightarrow> bool"
  os_path_isdir :: "'w \<Rightarrow> path \<Rightarrow> bool"
  create_configurations :: "'w \<Rightarrow> exn option \<times> 'w"
  monitor_exists :: "'w \<Rightarrow> bool"
  start_cuckoo :: "'w \<Rightarrow> loglevel \<Rightarrow> (exn option \<times> (nat \<times> int) list) \<times> 'w"
  start_cuckoo_controller :: "'w \<Rightarrow> loglevel \<Rightarrow> (exn option \<times> (nat \<times> int) list) \<times> 'w"
  start_importmode :: "'w \<Rightarrow> loglevel \<Rightarrow> (exn option \<times> (nat \<times> int) list) \<times> 'w"

text \<open>
  Modelled from the spec: \<open>cuckoocwd.create\<close> of cuckoo.common.storage is not among
  the sources. The spec's Create builds the full directory skeleton and fails with
  AlreadyExists if the path exists and the caller did not request a repair; the failing
  call writes nothing. The call takes the path alone, and \<open>create_cwd\<close> reaches it
  with a repair flag set only for a path that is not a directory, so the function fails
  whenever the path exists. Building the skeleton is the collaborator
  \<open>build_skeleton\<close>.
\<close>

definition cuckoocwd_create :: "'w core_env \<Rightarrow> 'w \<Rightarrow> path \<Rightarrow> exn option \<times> 'w" where
  "cuckoocwd_create env w p =
     (if exists_on_disk env w p then (Some (AlreadyExists p), w) else build_skeleton env w p)"

subsection \<open>The command createcwd\<close>

text \<open>Lines 117 to 123: create the directory, make it current, write the configurations.\<close>

definition create_cwd_fresh :: "'w core_env \<Rightarrow> path \<Rightarrow> 'w st \<Rightarrow> unit outcome \<times> 'w st" where
  "create_cwd_fresh env cwd_path s =
     (let s1 = emit (Call_cwd_create cwd_path) s
      in case cuckoocwd_create env (world s1) cwd_path of
           (Some x, w) \<Rightarrow> (Raise x, set_world w s1)
         | (None, w) \<Rightarrow>
             (let s2 = emit (Call_cwd_set cwd_path) (set_world w s1)
              in case cuckoocwd_set env (world s2) cwd_path of
                   (Some x, w2) \<Rightarrow> (Raise x, set_world w2 s2)
                 | (None, w2) \<Rightarrow>
                     (let s3 = emit Call_create_configurations (set_world w2 s2)
                      in case create_configurations env (world s3) of
                           (None, w3) \<Rightarrow>
                             (Return (),
                              print_info (''Created Cuckoo CWD at: '' @ cwd_path) (set_world w3 s3))
                         | (Some (StartupError e), w3) \<Rightarrow>
                             exit_error (''Failure during configuration generation: '' @ e)
                               (set_world w3 s3)
                         | (Some x, w3) \<Rightarrow> (Raise x, set_world w3 s3))))"

text \<open>Lines 109 to 115: the branch of \<open>--update-directories\<close>.\<close>

definition create_cwd_update :: "'w core_env \<Rightarrow> 'w st \<Rightarrow> unit outcome \<times> 'w st" where
  "create_cwd_update env s =
     (let s1 = emit Call_cwd_update_missing s
      in case cuckoocwd_update_missing env (world s1) of
           (None, w) \<Rightarrow> (Return (), print_info ''Created missing directories'' (set_world w s1))
         | (Some (InvalidCWDError e), w) \<Rightarrow>
             exit_error (''Failed during directory updating: '' @ e) (set_world w s1)
         | (Some x, w) \<Rightarrow> (Raise x, set_world w s1))"

text \<open>Lines 101 to 107: the branch of \<open>--regen-configs\<close>.\<close>

definition create_cwd_regen :: "'w core_env \<Rightarrow> 'w st \<Rightarrow> unit outcome \<times> 'w st" where
  "create_cwd_regen env s =
     (let s1 = emit Call_create_configurations s
      in case create_configurations env (world s1) of
           (None, w) \<Rightarrow>
             (Return (), print_info ''Re-created missing configuration files'' (set_world w s1))
         | (Some (StartupError e), w) \<Rightarrow>
             exit_error (''Failure during configuration generation: '' @ e) (set_world w s1)
         | (Some x, w) \<Rightarrow> (Raise x, set_world w s1))"

text \<open>\<open>create_cwd\<close> (lines 85 to 123); \<open>cwd_path\<close> is \<open>ctx.parent.cwd_path\<close>.\<close>

definition create_cwd ::
  "'w core_env \<Rightarrow> path \<Rightarrow> bool \<Rightarrow> bool \<Rightarrow> 'w st \<Rightarrow> unit outcome \<times> 'w st" where
  "create_cwd env cwd_path update_directories regen_configs s =
     (let s1 = emit (Call_os_path_isdir cwd_path) s
      in if os_path_isdir env (world s1) cwd_path
         then (if \<not> regen_configs \<and> \<not> update_directories
               then exit_error (''Path '' @ cwd_path @ '' already exists.'') s1
               else (let s2 = emit (Call_cwd_is_valid cwd_path) s1
                     in if \<not> cuckoocwd_is_valid env (world s2) cwd_path
                        then exit_error
                               (''Path '' @ cwd_path @ '' is not a valid Cuckoo CWD. ''
                                  @ ''Cannot regenerate configurations.'') s2
                        else if regen_configs then create_cwd_regen env s2
                        else if update_directories then create_cwd_update env s2
                        else create_cwd_fresh env cwd_path s2))
         else create_cwd_fresh env cwd_path s1)"

subsection \<open>The shutdown registry\<close>

text \<open>
  Modelled from the spec: \<open>register_shutdown\<close> and \<open>call_registered_shutdowns\<close> of
  cuckoo.common.shutdown are not among the sources. The spec has an ordered registry
  of shutdown actions, populated before the blocking call; on exit the registered
  actions run once, in a fixed order. Registering appends the action with its order;
  calling runs every entry, lowest order first, entries of equal order as registered.
\<close>

type_synonym registry = "(shutdown_action \<times> int) list"

definition register_shutdown ::
  "shutdown_action \<Rightarrow> int \<Rightarrow> registry \<Rightarrow> 'w st \<Rightarrow> registry \<times> 'w st" where
  "register_shutdown a order reg s = (reg @ [(a, order)], emit (Call_register_shutdown a order) s)"

text \<open>
  Running one action: the closure \<open>_stopmsg\<close> prints its line; an action of the
  subsystem is opaque.
\<close>

fun run_shutdown :: "shutdown_action \<Rightarrow> 'w st \<Rightarrow> 'w st" where
  "run_shutdown (Stopmsg m) s = emit (Print m) (emit (Run_shutdown (Stopmsg m)) s)"
| "run_shutdown (Registered_by_subsystem n) s = emit (Run_shutdown (Registered_by_subsystem n)) s"

fun run_shutdowns :: "registry \<Rightarrow> 'w st \<Rightarrow> 'w st" where
  "run_shutdowns [] s = s"
| "run_shutdowns ((a, order) # reg) s = run_shutdowns reg (run_shutdown a s)"

definition call_registered_shutdowns :: "registry \<Rightarrow> 'w st \<Rightarrow> 'w st" where
  "call_registered_shutdowns reg s = run_shutdowns (sort_key snd reg) (emit Call_registered_shutdowns s)"

definition by_subsystem :: "(nat \<times> int) list \<Rightarrow> registry" where
  "by_subsystem entries = map (\<lambda>(n, order). (Registered_by_subsystem n, order)) entries"

subsection \<open>Starting a subsystem\<close>

text \<open>
  The block shared by \<open>main\<close> (lines 69 to 79) and \<open>importmode\<close> (lines 368 to 378),
  which differ in the entry point and in two strings: register \<open>_stopmsg\<close> with order
  1, call the entry point, turn a \<open>StartupError\<close> into \<open>exit_error\<close>, and in the
  \<open>finally\<close> block call the registered shutdowns.
\<close>

definition run_subsystem ::
  "('w \<Rightarrow> loglevel \<Rightarrow> (exn option \<times> (nat \<times> int) list) \<times> 'w) \<Rightarrow> event \<Rightarrow> string \<Rightarrow> string
     \<Rightarrow> loglevel \<Rightarrow> 'w st \<Rightarrow> unit outcome \<times> 'w st" where
  "run_subsystem entry call stopmsg failure lvl s =
     (case register_shutdown (Stopmsg stopmsg) 1 [] s of
        (reg, s1) \<Rightarrow>
          (let s2 = emit call s1
           in case entry (world s2) lvl of
                ((raised, entries), w) \<Rightarrow>
                  (let reg2 = reg @ by_subsystem entries;
                       s3 = set_world w s2
                   in case raised of
                        None \<Rightarrow> (Return (), call_registered_shutdowns reg2 s3)
                      | Some (StartupError e) \<Rightarrow>
                          (case exit_error (failure @ e) s3 of
                             (out, s4) \<Rightarrow> (out, call_registered_shutdowns reg2 s4))
                      | Some x \<Rightarrow> (Raise x, call_registered_shutdowns reg2 s3))))"

record ctx =
  cwd_path_of :: path
  loglevel_of :: "loglevel option"

definition truthy_str :: "string option \<Rightarrow> bool" where
  "truthy_str x = (case x of None \<Rightarrow> False | Some v \<Rightarrow> v \<noteq> [])"

text \<open>
  \<open>main\<close> (lines 20 to 79). It returns the context it filled in when a subcommand is
  to run, and \<open>None\<close> when it ran the core itself.
\<close>

definition main ::
  "'w core_env \<Rightarrow> string option \<Rightarrow> bool \<Rightarrow> bool \<Rightarrow> bool \<Rightarrow> bool \<Rightarrow> string option \<Rightarrow> 'w st
     \<Rightarrow> ctx option outcome \<times> 'w st" where
  "main env cwd_opt distributed debug quiet verbose invoked_subcommand s =
     (let cwd = (if \<not> truthy_str cwd_opt then cuckoocwd_DEFAULT env else the cwd_opt);
          c = \<lparr>cwd_path_of = cwd, loglevel_of = None\<rparr>;
          s1 = emit (Call_cwd_exists cwd) s
      in if \<not> cuckoocwd_exists env (world s1) cwd
         then (if invoked_subcommand = Some ''createcwd'' then (Return (Some c), s1)
               else exit_error
                      (''Cuckoo CWD '' @ cwd @ '' does not yet exist. Run ''
                         @ [CHR 0x27] @ ''cuckoo createcwd'' @ [CHR 0x27]
                         @ '' if this is the first time you are ''
                         @ ''running Cuckoo with this CWD path'') s1)
         else (let s2 = emit (Call_cwd_set cwd) s1
               in case cuckoocwd_set env (world s2) cwd of
                    (Some (InvalidCWDError e), w) \<Rightarrow>
                      exit_error (''Invalid Cuckoo working directory: '' @ e) (set_world w s2)
                  | (Some x, w) \<Rightarrow> (Raise x, set_world w s2)
                  | (None, w) \<Rightarrow>
                      (let s3 = set_world w s2;
                           lvl = (if verbose then VERBOSE else if debug then DEBUG
                                  else if quiet then WARNING else INFO);
                           c = c\<lparr>loglevel_of := Some lvl\<rparr>
                       in if truthy_str invoked_subcommand then (Return (Some c), s3)
                          else (let s4 = emit Call_monitor_exists s3
                                in if \<not> monitor_exists env (world s4)
                                   then exit_error
                                          (''No monitor and stager binaries are present yet. ''
                                             @ ''Use '' @ [CHR 0x27] @ ''cuckoo getmonitor <zip path>''
                                             @ [CHR 0x27] @ '' to unpack and use monitor ''
                                             @ ''and stagers from a Cuckoo monitor zip.'') s4
                                   else (case (if distributed
                                               then run_subsystem (start_cuckoo_controller env)
                                                      (Call_start_cuckoo_controller lvl)
                                                      ''Stopping Cuckoo..''
                                                      ''Failure during Cuckoo startup: '' lvl s4
                                               else run_subsystem (start_cuckoo env)
                                                      (Call_start_cuckoo lvl)
                                                      ''Stopping Cuckoo..''
                                                      ''Failure during Cuckoo startup: '' lvl s4) of
                                           (Return u, s5) \<Rightarrow> (Return None, s5)
                                         | (Raise x, s5) \<Rightarrow> (Raise x, s5))))))"

text \<open>\<open>importmode\<close> (lines 357 to 378); \<open>lvl\<close> is \<open>ctx.parent.loglevel\<close>.\<close>

definition importmode ::
  "'w core_env \<Rightarrow> loglevel \<Rightarrow> string option \<Rightarrow> 'w st \<Rightarrow> unit outcome \<times> 'w st" where
  "importmode env lvl invoked_subcommand s =
     (if truthy_str invoked_subcommand then (Return (), s)
      else run_subsystem (start_importmode env) (Call_start_importmode lvl)
             ''Stopping import mode..'' ''Failure during import mode startup: '' lvl s)"

subsection \<open>Reference definitions for the properties\<close>

text \<open>
  The comma-separated pieces of a string, read from the right: a comma starts a new
  piece, any other character joins the piece that follows it.
\<close>

fun spec_comma_pieces :: "string \<Rightarrow> string list" where
  "spec_comma_pieces [] = [[]]"
| "spec_comma_pieces (c # cs) =
     (if c = CHR '','' then [] # spec_comma_pieces cs
      else (case spec_comma_pieces cs of p # ps \<Rightarrow> (c # p) # ps | [] \<Rightarrow> [[c]]))"

text \<open>A string with the whitespace at both ends removed.\<close>

definition spec_trim :: "string \<Rightarrow> string" where
  "spec_trim s = rev (dropWhile py_isspace (rev (dropWhile py_isspace s)))"

text \<open>The tag list as described: pieces, trimmed, the empty ones dropped.\<close>

definition spec_tags :: "string \<Rightarrow> string list" where
  "spec_tags tags = filter (\<lambda>t. t \<noteq> []) (map spec_trim (spec_comma_pieces tags))"

text \<open>
  A platform token as described: without a comma it is the platform; with one, the
  platform is what precedes the first comma and the OS version all that follows it.
\<close>

definition spec_platform_entry :: "string \<Rightarrow> string \<times> string option" where
  "spec_platform_entry tok =
     (if CHR '','' \<in> set tok
      then (takeWhile (\<lambda>c. c \<noteq> CHR '','') tok, Some (tl (dropWhile (\<lambda>c. c \<noteq> CHR '','') tok)))
      else (tok, None))"

text \<open>The \<open>add_machine\<close> calls recorded in a log.\<close>

fun add_machine_calls :: "event list \<Rightarrow> machine_args list" where
  "add_machine_calls [] = []"
| "add_machine_calls (Call_add_machine a # evs) = a # add_machine_calls evs"
| "add_machine_calls (_ # evs) = add_machine_calls evs"

text \<open>
  A loop body that leaves the world alone and yields nothing itself: it only looks at
  the results. Both \<open>no_body\<close> and \<open>report\<close> are of this kind.
\<close>

definition observer :: "'w body \<Rightarrow> bool" where
  "observer body =
     (\<forall>r s. world (body r s) = world s \<and> yielded (log (body r s)) = yielded (log s))"

text \<open>
  The interface of the submission collaborator: a call returns an analysis id or raises
  \<open>SubmissionError\<close>. \<open>as_result\<close> is the result the spec assigns to a unit and
  the outcome of its call.
\<close>

fun in_interface :: "exn + string \<Rightarrow> bool" where
  "in_interface (Inr a) = True"
| "in_interface (Inl (SubmissionError e)) = True"
| "in_interface (Inl _) = False"

fun as_result :: "string \<Rightarrow> exn + string \<Rightarrow> result option" where
  "as_result u (Inr a) = Some (Some a, u, None)"
| "as_result u (Inl (SubmissionError e)) = Some (None, u, Some (Caught_SubmissionError e))"
| "as_result u (Inl _) = None"

text \<open>
  What the collaborator answers when it is called on each unit in turn, starting in
  world \<open>w\<close>: the outcomes of the calls alone, whatever the caller does with them.
\<close>

fun file_outcomes :: "'w submit_env \<Rightarrow> settings \<Rightarrow> path list \<Rightarrow> 'w \<Rightarrow> (exn + string) list" where
  "file_outcomes env stg [] w = []"
| "file_outcomes env stg (p # files) w =
     (case submit_file env w p stg (basename p) of
        (r, w1) \<Rightarrow> r # file_outcomes env stg files w1)"

fun url_outcomes :: "'w submit_env \<Rightarrow> settings \<Rightarrow> string list \<Rightarrow> 'w \<Rightarrow> (exn + string) list" where
  "url_outcomes env stg [] w = []"
| "url_outcomes env stg (u # urls) w =
     (case submit_url env w u stg of
        (r, w1) \<Rightarrow> r # url_outcomes env stg urls w1)"

text \<open>The settings a logged call passes to the submission collaborator, if it is one.\<close>

fun passes_settings :: "event \<Rightarrow> settings option" where
  "passes_settings (Call_submit_file p stg n) = Some stg"
| "passes_settings (Call_submit_url u stg) = Some stg"
| "passes_settings _ = None"

text \<open>
  Sample collaborators for concrete runs. The world counts the submissions made. The
  path \<open>/missing\<close> does not exist and enumerates to nothing, \<open>/dir\<close> is a directory
  of two files, any other path is a single file; a file named \<open>b\<close> and the URL
  \<open>bad\<close> are rejected with a \<open>SubmissionError\<close>; every other submission returns an
  id made from the name.
\<close>

definition sample_env :: "nat submit_env" where
  "sample_env =
     \<lparr>os_path_exists = (\<lambda>w p. p \<noteq> ''/missing''),
      enumerate_files = (\<lambda>w p. if p = ''/missing'' then []
                                else if p = ''/dir'' then [''/dir/a'', ''/dir/b''] else [p]),
      submit_file = (\<lambda>w p stg n. (if n = ''b'' then Inl (SubmissionError ''rejected'')
                                    else Inr (''id-'' @ n), Suc w)),
      submit_url = (\<lambda>w u stg. (if u = ''bad'' then Inl (SubmissionError ''rejected'')
                                 else Inr (''id-'' @ u), Suc w)),
      notify = (\<lambda>w. (None, w)),
      set_machinesdump_path = (\<lambda>w. (None, w)),
      verify_settings = (\<lambda>s. None)\<rparr>"

definition sample_settings :: settings where
  "sample_settings = \<lparr>timeout = 120, priority = 1, manual = False, platforms = []\<rparr>"

text \<open>The result the existence check of \<open>_submit_files\<close> yields for a target.\<close>

definition not_found :: "path \<Rightarrow> result" where
  "not_found p = (None, p, Some (Message ''No such file or directory''))"

text \<open>Exactly one of the analysis id and the error is present.\<close>

definition one_of_id_and_error :: "result \<Rightarrow> bool" where
  "one_of_id_and_error r = ((analysis_id r = None) \<noteq> (error_of r = None))"

text \<open>
  The units a list of raw file targets resolves to in world \<open>w\<close>: the targets that
  exist are resolved, each to what \<open>enumerate_files\<close> returns for it, in the order
  of the targets. A target that does not exist resolves to no unit.
\<close>

definition resolved_units :: "'w submit_env \<Rightarrow> 'w \<Rightarrow> path list \<Rightarrow> path list" where
  "resolved_units env w targets =
     concat (map (enumerate_files env w) (filter (os_path_exists env w) targets))"

text \<open>The raw targets that do not exist in world \<open>w\<close>, in the order of the targets.\<close>

definition missing_targets :: "'w submit_env \<Rightarrow> 'w \<Rightarrow> path list \<Rightarrow> path list" where
  "missing_targets env w targets = filter (\<lambda>p. \<not> os_path_exists env w p) targets"

text \<open>
  Sample collaborators where \<open>set_machinesdump_path\<close> raises \<open>SubmissionError\<close>,
  and where \<open>notify\<close> does.
\<close>

definition no_dump_env :: "nat submit_env" where
  "no_dump_env =
     sample_env\<lparr>set_machinesdump_path := (\<lambda>w. (Some (SubmissionError ''no machines dump''), w))\<rparr>"

definition notify_down_env :: "nat submit_env" where
  "notify_down_env = sample_env\<lparr>notify := (\<lambda>w. (Some (SubmissionError ''down''), w))\<rparr>"

text \<open>
  Sample collaborators where every URL submission raises an exception that is not a
  \<open>SubmissionError\<close>.
\<close>

definition broken_env :: "nat submit_env" where
  "broken_env =
     sample_env\<lparr>submit_url := (\<lambda>w u stg. (Inl (OtherException ''ConnectionError''), w))\<rparr>"

text \<open>The events that running the entries of a registry, in list order, appends to the log.\<close>

fun shutdown_events :: "registry \<Rightarrow> event list" where
  "shutdown_events [] = []"
| "shutdown_events ((Stopmsg m, order) # reg) =
     Run_shutdown (Stopmsg m) # Print m # shutdown_events reg"
| "shutdown_events ((Registered_by_subsystem n, order) # reg) =
     Run_shutdown (Registered_by_subsystem n) # shutdown_events reg"

text \<open>What a failed startup prints before the shutdown actions run.\<close>

fun startup_report :: "string \<Rightarrow> exn option \<Rightarrow> event list" where
  "startup_report failure (Some (StartupError e)) = [Print_error (failure @ e)]"
| "startup_report failure _ = []"

text \<open>How a subsystem block ends, given what the entry point raised.\<close>

fun startup_outcome :: "exn option \<Rightarrow> unit outcome" where
  "startup_outcome None = Return ()"
| "startup_outcome (Some (StartupError e)) = Raise (SystemExit 1)"
| "startup_outcome (Some x) = Raise x"

text \<open>
  Sample collaborators of the core commands. The world is the list of the directories
  on disk, each a valid working directory; \<open>/etc/hosts\<close> exists and is not a
  directory. The standalone core returns and registers two shutdown actions of its own;
  the controller fails to start.
\<close>

definition sample_core :: "path list core_env" where
  "sample_core =
     \<lparr>cuckoocwd_DEFAULT = ''/home/cuckoo/.cuckoocwd'',
      cuckoocwd_exists = (\<lambda>w p. p \<in> set w),
      cuckoocwd_is_valid = (\<lambda>w p. p \<in> set w),
      cuckoocwd_set = (\<lambda>w p. (if p \<in> set w then None else Some (InvalidCWDError p), w)),
      cuckoocwd_update_missing = (\<lambda>w. (None, w)),
      build_skeleton = (\<lambda>w p. (None, p # w)),
      exists_on_disk = (\<lambda>w p. p \<in> set w \<or> p = ''/etc/hosts''),
      os_path_isdir = (\<lambda>w p. p \<in> set w),
      create_configurations = (\<lambda>w. (None, w)),
      monitor_exists = (\<lambda>w. True),
      start_cuckoo = (\<lambda>w lvl. ((None, [(7, 0), (8, 5)]), w)),
      start_cuckoo_controller = (\<lambda>w lvl. ((Some (StartupError ''no nodes''), []), w)),
      start_importmode = (\<lambda>w lvl. ((None, []), w))\<rparr>"

section \<open>Properties\<close>

subsection \<open>Strings\<close>

lemma spec_comma_pieces_nonempty: "spec_comma_pieces s \<noteq> []"
  by (induction s) (auto split: list.splits)

lemma py_split_from_unlimited:
  "py_split_from CHR '','' None cur s =
     (cur @ hd (spec_comma_pieces s)) # tl (spec_comma_pieces s)"
proof (induction s arbitrary: cur)
  case Nil
  show ?case by simp
next
  case (Cons c cs)
  obtain p ps where ps: "spec_comma_pieces cs = p # ps"
    using spec_comma_pieces_nonempty [of cs] by (cases "spec_comma_pieces cs") auto
  show ?case using Cons [of "cur @ [c]"] Cons [of "[]"] ps by simp
qed

lemma py_split_unlimited: "py_split CHR '','' None s = spec_comma_pieces s"
  using py_split_from_unlimited [of "[]" s] spec_comma_pieces_nonempty [of s]
  by (simp add: py_split_def)

lemma py_split_from_zero: "py_split_from sep (Some 0) cur s = [cur @ s]"
  by (induction s arbitrary: cur) auto

lemma py_split_from_once:
  "py_split_from CHR '','' (Some 1) cur s =
     (if CHR '','' \<in> set s
      then [cur @ takeWhile (\<lambda>c. c \<noteq> CHR '','') s, tl (dropWhile (\<lambda>c. c \<noteq> CHR '','') s)]
      else [cur @ s])"
  by (induction s arbitrary: cur) (auto simp: py_split_from_zero)

lemma py_strip_trim: "py_strip s = spec_trim s"
proof -
  define d where "d = dropWhile py_isspace s"
  define t where "t = takeWhile py_isspace s"
  have s: "s = t @ d" by (simp add: d_def t_def)
  have dd: "drop (length t) s = d" by (simp add: s)
  show ?thesis
  proof (cases "d = []")
    case True
    then have "length t = length s" using s by simp
    then show ?thesis using True
      by (simp add: py_strip_def spec_trim_def Let_def d_def [symmetric] t_def [symmetric])
  next
    case False
    then have hd: "\<not> py_isspace (hd d)" unfolding d_def by (simp add: hd_dropWhile)
    have "hd d \<in> set (rev d)" using False by simp
    then have tw: "takeWhile py_isspace (rev s) = takeWhile py_isspace (rev d)"
      using hd by (simp add: s)
    define k where "k = length (takeWhile py_isspace (rev d))"
    have "length s - k - length t = length d - k" using s by simp
    moreover have "take (length d - k) d = rev (drop k (rev d))"
      by (simp add: rev_drop)
    moreover have "drop k (rev d) = dropWhile py_isspace (rev d)"
      unfolding k_def by (simp add: dropWhile_eq_drop)
    ultimately show ?thesis
      by (simp add: py_strip_def spec_trim_def Let_def d_def [symmetric] t_def [symmetric]
            tw k_def [symmetric] dd)
  qed
qed

subsection \<open>The state and the log\<close>

lemma yielded_append: "yielded (xs @ ys) = yielded xs @ yielded ys"
  by (induction xs rule: yielded.induct) auto

lemma world_emit [simp]: "world (emit ev s) = world s"
  by (simp add: emit_def)

lemma log_emit [simp]: "log (emit ev s) = log s @ [ev]"
  by (simp add: emit_def)

lemma world_set_world [simp]: "world (set_world w s) = w"
  by (simp add: set_world_def)

lemma log_set_world [simp]: "log (set_world w s) = log s"
  by (simp add: set_world_def)

lemma world_start [simp]: "world (start w) = w"
  by (simp add: start_def)

lemma log_start [simp]: "log (start w) = []"
  by (simp add: start_def)

lemma results_set_world [simp]: "results (set_world w s) = results s"
  by (simp add: results_def)

lemma results_emit_Yield [simp]: "results (emit (Yield r) s) = results s @ [r]"
  by (simp add: results_def yielded_append)

lemma results_start [simp]: "results (start w) = []"
  by (simp add: results_def)

lemma observer_no_body: "observer no_body"
  by (simp add: observer_def no_body_def)

lemma observer_report: "observer (report kind)"
  by (auto simp: observer_def report_def print_error_def print_info_def yielded_append
      split: prod.splits)

lemma world_yield:
  assumes "observer body"
  shows "world (yield body r s) = world s"
proof -
  have "world (body r (emit (Yield r) s)) = world (emit (Yield r) s)"
    using assms unfolding observer_def by blast
  then show ?thesis by (simp add: yield_def)
qed

lemma results_yield:
  assumes "observer body"
  shows "results (yield body r s) = results s @ [r]"
proof -
  have "yielded (log (body r (emit (Yield r) s))) = yielded (log (emit (Yield r) s))"
    using assms unfolding observer_def by blast
  then show ?thesis by (simp add: yield_def results_def yielded_append)
qed

subsection \<open>The tags of machine add\<close>

text \<open>
  C10. For every \<open>--tags\<close> string, the tag list that \<open>machine_add\<close> passes to
  \<open>add_machine\<close> is the list of the comma-separated pieces of the string, each with
  the surrounding whitespace stripped, without the empty ones. The default, the empty
  string, gives the empty list, and \<open>a, ,b,\<close> gives exactly \<open>a\<close> and \<open>b\<close>.
\<close>

theorem machine_add_tags_stripped_nonempty_pieces:
  "machine_add_tags tags = spec_tags tags
   \<and> map arg_tags (add_machine_calls (log (snd
        (machine_add env machinery name label ip platform os_version snapshot interface tags
           (start w))))) = [spec_tags tags]
   \<and> machine_add_tags '''' = []
   \<and> machine_add_tags ''a, ,b,'' = [''a'', ''b'']"
proof -
  have spec: "machine_add_tags tags = spec_tags tags"
    by (simp add: machine_add_tags_def spec_tags_def filter_None_def py_split_unlimited
          py_strip_trim cong: map_cong)
  have call: "map arg_tags (add_machine_calls (log (snd
        (machine_add env machinery name label ip platform os_version snapshot interface tags
           (start w))))) = [machine_add_tags tags]"
    by (simp add: machine_add_def Let_def exit_error_def print_info_def print_error_def
          split: prod.splits option.splits exn.splits)
  have empty: "machine_add_tags '''' = []"
    by (simp add: machine_add_tags_def filter_None_def py_split_def py_strip_def)
  have example: "machine_add_tags ''a, ,b,'' = [''a'', ''b'']"
    by (simp add: machine_add_tags_def filter_None_def py_split_def py_strip_def py_isspace_def)
  show ?thesis using spec call empty example by simp
qed

subsection \<open>The platform tokens of submit\<close>

lemma py_split_once:
  "py_split CHR '','' (Some 1) tok =
     (if CHR '','' \<in> set tok
      then [takeWhile (\<lambda>c. c \<noteq> CHR '','') tok, tl (dropWhile (\<lambda>c. c \<noteq> CHR '','') tok)]
      else [tok])"
  using py_split_from_once [of "[]" tok] by (simp add: py_split_def)

lemma add_platforms_appends:
  "add_platforms platform h =
     Inr (h\<lparr>h_platforms := h_platforms h @ map spec_platform_entry platform\<rparr>)"
proof (induction platform arbitrary: h)
  case Nil
  show ?case by simp
next
  case (Cons p_v rest)
  show ?case
  proof (cases "CHR '','' \<in> set p_v")
    case True
    then show ?thesis
      unfolding add_platforms.simps py_split_once
      by (simp add: Cons add_platform_def spec_platform_entry_def)
  next
    case False
    then show ?thesis
      unfolding add_platforms.simps py_split_once
      by (simp add: Cons add_platform_def spec_platform_entry_def)
  qed
qed

lemma submission_settings_eq:
  "submission_settings verify platform t p =
     (if t \<le> 0 then Inl (SubmissionError ''timeout'')
      else (case verify \<lparr>timeout = t, priority = p, manual = False,
                          platforms = map spec_platform_entry platform\<rparr> of
              Some field \<Rightarrow> Inl (SubmissionError field)
            | None \<Rightarrow> Inr \<lparr>timeout = t, priority = p, manual = False,
                          platforms = map spec_platform_entry platform\<rparr>))"
  by (simp add: submission_settings_def add_platforms_appends make_settings_def new_settings_def
      set_timeout_def set_priority_def set_manual_def Let_def)

lemma first_comma_split:
  assumes "CHR '','' \<in> set tok"
  shows "tok = takeWhile (\<lambda>c. c \<noteq> CHR '','') tok @ '','' @ tl (dropWhile (\<lambda>c. c \<noteq> CHR '','') tok)"
    and "CHR '','' \<notin> set (takeWhile (\<lambda>c. c \<noteq> CHR '','') tok)"
proof -
  have ne: "dropWhile (\<lambda>c. c \<noteq> CHR '','') tok \<noteq> []" using assms by simp
  then have "hd (dropWhile (\<lambda>c. c \<noteq> CHR '','') tok) = CHR '',''"
    using hd_dropWhile [of "\<lambda>c. c \<noteq> CHR '',''" tok] by simp
  then have "dropWhile (\<lambda>c. c \<noteq> CHR '','') tok
               = CHR '','' # tl (dropWhile (\<lambda>c. c \<noteq> CHR '','') tok)"
    using ne by (cases "dropWhile (\<lambda>c. c \<noteq> CHR '','') tok") auto
  then show "tok = takeWhile (\<lambda>c. c \<noteq> CHR '','') tok @ '','' @ tl (dropWhile (\<lambda>c. c \<noteq> CHR '','') tok)"
    using takeWhile_dropWhile_id [of "\<lambda>c. c \<noteq> CHR '',''" tok] by simp
  show "CHR '','' \<notin> set (takeWhile (\<lambda>c. c \<noteq> CHR '','') tok)"
    using set_takeWhileD by fastforce
qed

text \<open>
  C6. Every platform token given to submit is split at its first comma only and adds
  exactly one platform entry, in input order: the loop appends to the helper the list of
  the tokens' entries, and the built settings carry that list. The token \<open>windows,10\<close>
  gives platform \<open>windows\<close> with OS version \<open>10\<close>, \<open>linux\<close> gives platform
  \<open>linux\<close> with no OS version, and a token with more commas keeps all that follows
  the first comma as the OS version: the token is the platform, a comma and the OS
  version, and the platform has no comma.
\<close>

theorem platform_tokens_split_at_first_comma:
  "add_platforms platform h =
     Inr (h\<lparr>h_platforms := h_platforms h @ map spec_platform_entry platform\<rparr>)
   \<and> (\<forall>stg. submission_settings verify platform t p = Inr stg
         \<longrightarrow> platforms stg = map spec_platform_entry platform)
   \<and> (0 < t \<and> verify \<lparr>timeout = t, priority = p, manual = False,
                          platforms = map spec_platform_entry platform\<rparr> = None
         \<longrightarrow> (\<exists>stg. submission_settings verify platform t p = Inr stg))
   \<and> submission_settings (\<lambda>s. None) [''windows,10'', ''linux''] 120 1 =
        Inr \<lparr>timeout = 120, priority = 1, manual = False,
             platforms = [(''windows'', Some ''10''), (''linux'', None)]\<rparr>
   \<and> add_platforms [''windows,10,x64''] new_settings =
        Inr (new_settings\<lparr>h_platforms := [(''windows'', Some ''10,x64'')]\<rparr>)
   \<and> (CHR '','' \<in> set tok \<longrightarrow>
        (\<exists>plat ver. add_platforms [tok] new_settings
                        = Inr (new_settings\<lparr>h_platforms := [(plat, Some ver)]\<rparr>)
           \<and> tok = plat @ '','' @ ver \<and> CHR '','' \<notin> set plat))"
proof -
  have loop: "add_platforms platform h =
     Inr (h\<lparr>h_platforms := h_platforms h @ map spec_platform_entry platform\<rparr>)"
    by (rule add_platforms_appends)
  have built: "\<forall>stg. submission_settings verify platform t p = Inr stg
         \<longrightarrow> platforms stg = map spec_platform_entry platform"
    by (auto simp: submission_settings_eq split: if_splits option.splits)
  have builds: "0 < t \<and> verify \<lparr>timeout = t, priority = p, manual = False,
                          platforms = map spec_platform_entry platform\<rparr> = None
         \<longrightarrow> (\<exists>stg. submission_settings verify platform t p = Inr stg)"
    by (simp add: submission_settings_eq)
  have ex1: "submission_settings (\<lambda>s. None) [''windows,10'', ''linux''] 120 1 =
        Inr \<lparr>timeout = 120, priority = 1, manual = False,
             platforms = [(''windows'', Some ''10''), (''linux'', None)]\<rparr>"
    by (simp add: submission_settings_eq spec_platform_entry_def)
  have ex2: "add_platforms [''windows,10,x64''] new_settings =
        Inr (new_settings\<lparr>h_platforms := [(''windows'', Some ''10,x64'')]\<rparr>)"
    by (simp add: add_platforms_appends spec_platform_entry_def new_settings_def)
  have many: "CHR '','' \<in> set tok \<longrightarrow>
        (\<exists>plat ver. add_platforms [tok] new_settings
                        = Inr (new_settings\<lparr>h_platforms := [(plat, Some ver)]\<rparr>)
           \<and> tok = plat @ '','' @ ver \<and> CHR '','' \<notin> set plat)"
  proof
    assume c: "CHR '','' \<in> set tok"
    have "add_platforms [tok] new_settings
            = Inr (new_settings\<lparr>h_platforms :=
                 [(takeWhile (\<lambda>c. c \<noteq> CHR '','') tok, Some (tl (dropWhile (\<lambda>c. c \<noteq> CHR '','') tok)))]\<rparr>)"
      using c by (simp add: add_platforms_appends spec_platform_entry_def new_settings_def)
    then show "\<exists>plat ver. add_platforms [tok] new_settings
                        = Inr (new_settings\<lparr>h_platforms := [(plat, Some ver)]\<rparr>)
           \<and> tok = plat @ '','' @ ver \<and> CHR '','' \<notin> set plat"
      using first_comma_split [OF c] by blast
  qed
  show ?thesis using loop built builds ex1 ex2 many by blast
qed

theorem platform_tokens_split_at_first_comma_witness:
  "submission_settings (\<lambda>s. None) [''a,b,c'', ''linux''] 60 2 =
     Inr \<lparr>timeout = 60, priority = 2, manual = False,
          platforms = [(''a'', Some ''b,c''), (''linux'', None)]\<rparr>
   \<and> platforms \<lparr>timeout = 60, priority = 2, manual = False,
          platforms = [(''a'', Some ''b,c''), (''linux'', None)]\<rparr>
       = map spec_platform_entry [''a,b,c'', ''linux'']
   \<and> CHR '','' \<in> set ''a,b,c''
   \<and> (\<exists>plat ver. add_platforms [''a,b,c''] new_settings
                        = Inr (new_settings\<lparr>h_platforms := [(plat, Some ver)]\<rparr>)
           \<and> ''a,b,c'' = plat @ '','' @ ver \<and> CHR '','' \<notin> set plat)"
proof -
  have built: "submission_settings (\<lambda>s. None) [''a,b,c'', ''linux''] 60 2 =
     Inr \<lparr>timeout = 60, priority = 2, manual = False,
          platforms = [(''a'', Some ''b,c''), (''linux'', None)]\<rparr>"
    by (simp add: submission_settings_def py_split_def make_settings_def
          new_settings_def set_timeout_def set_priority_def set_manual_def add_platform_def Let_def)
  have comma: "CHR '','' \<in> set ''a,b,c''" by simp
  show ?thesis
    using built comma
      platform_tokens_split_at_first_comma
        [of "[''a,b,c'', ''linux'']" new_settings "\<lambda>s. None" 60 2 "''a,b,c''"]
    by simp
qed

subsection \<open>What the generators log\<close>

text \<open>
  A property of events that holds of the log before a generator runs, that the loop body
  preserves, and that holds of every event the generator itself can emit, holds of the
  log after it.
\<close>

lemma yield_log_invariant:
  assumes "\<And>r s. (\<forall>ev \<in> set (log s). P ev) \<Longrightarrow> (\<forall>ev \<in> set (log (body r s)). P ev)"
    and "\<forall>ev \<in> set (log s). P ev" and "P (Yield r)"
  shows "\<forall>ev \<in> set (log (yield body r s)). P ev"
  unfolding yield_def using assms(2,3) by (intro assms(1)) simp

lemma submitted_log_invariant:
  assumes body: "\<And>r s. (\<forall>ev \<in> set (log s). P ev) \<Longrightarrow> (\<forall>ev \<in> set (log (body r s)). P ev)"
    and s: "\<forall>ev \<in> set (log s). P ev"
    and ok: "\<And>a. P (Yield (Some a, u, None))"
    and failed: "\<And>e. P (Yield (None, u, Some (Caught_SubmissionError e)))"
  shows "\<forall>ev \<in> set (log (snd (submitted body u r s))). P ev"
proof -
  have s': "\<forall>ev \<in> set (log (set_world w s)). P ev" for w using s by simp
  show ?thesis
    using yield_log_invariant [of P body, OF body s' ok]
      yield_log_invariant [of P body, OF body s' failed] s
    by (simp add: submitted_def split: prod.splits sum.splits exn.splits)
qed

lemma submit_files_resolve_log_invariant:
  assumes body: "\<And>r s. (\<forall>ev \<in> set (log s). P ev) \<Longrightarrow> (\<forall>ev \<in> set (log (body r s)). P ev)"
    and s: "\<forall>ev \<in> set (log s). P ev"
    and ev: "\<And>p. P (Call_os_path_exists p)" "\<And>p. P (Call_enumerate_files p)"
      "\<And>p. P (Yield (None, p, Some (Message ''No such file or directory'')))"
  shows "\<forall>ev \<in> set (log (snd (submit_files_resolve env body targets files s))). P ev"
  using s
proof (induction targets arbitrary: files s)
  case Nil
  then show ?case by simp
next
  case (Cons p targets)
  define s1 where "s1 = emit (Call_os_path_exists p) s"
  define s2 where "s2 = (if \<not> os_path_exists env (world s1) p
                then yield body (None, p, Some (Message ''No such file or directory'')) s1
                else s1)"
  define s3 where "s3 = emit (Call_enumerate_files p) s2"
  have 1: "\<forall>ev \<in> set (log s1). P ev" using Cons.prems ev(1) by (simp add: s1_def)
  have 2: "\<forall>ev \<in> set (log s2). P ev"
    unfolding s2_def using 1 yield_log_invariant [of P body, OF body 1 ev(3)] by simp
  have 3: "\<forall>ev \<in> set (log s3). P ev" using 2 ev(2) by (simp add: s3_def)
  have "submit_files_resolve env body (p # targets) files s
          = submit_files_resolve env body targets (files @ enumerate_files env (world s3) p) s3"
    by (simp add: s1_def s2_def s3_def Let_def)
  then show ?case using Cons.IH [OF 3] by simp
qed

lemma submit_files_each_log_invariant:
  assumes body: "\<And>r s. (\<forall>ev \<in> set (log s). P ev) \<Longrightarrow> (\<forall>ev \<in> set (log (body r s)). P ev)"
    and s: "\<forall>ev \<in> set (log s). P ev"
    and ev: "\<And>p n. P (Call_submit_file p stg n)" "\<And>a p. P (Yield (Some a, p, None))"
      "\<And>e p. P (Yield (None, p, Some (Caught_SubmissionError e)))"
  shows "\<forall>ev \<in> set (log (snd (submit_files_each env body stg files s))). P ev"
  using s
proof (induction files arbitrary: s)
  case Nil
  then show ?case by simp
next
  case (Cons p files)
  define s1 where "s1 = emit (Call_submit_file p stg (basename p)) s"
  define r where "r = submitted body p (submit_file env (world s1) p stg (basename p)) s1"
  have 1: "\<forall>ev \<in> set (log s1). P ev" using Cons.prems ev(1) by (simp add: s1_def)
  have 2: "\<forall>ev \<in> set (log (snd r)). P ev"
    unfolding r_def by (rule submitted_log_invariant [of P body, OF body 1 ev(2) ev(3)])
  have "submit_files_each env body stg (p # files) s
          = (case r of (Some x, s2) \<Rightarrow> (Some x, s2)
                     | (None, s2) \<Rightarrow> submit_files_each env body stg files s2)"
    by (simp add: s1_def r_def Let_def)
  then show ?case using Cons.IH [of "snd r"] 2
    by (cases r; cases "fst r") auto
qed

lemma submit_files_log_invariant:
  assumes body: "\<And>r s. (\<forall>ev \<in> set (log s). P ev) \<Longrightarrow> (\<forall>ev \<in> set (log (body r s)). P ev)"
    and s: "\<forall>ev \<in> set (log s). P ev"
    and ev: "\<And>p. P (Call_os_path_exists p)" "\<And>p. P (Call_enumerate_files p)"
      "\<And>p. P (Yield (None, p, Some (Message ''No such file or directory'')))"
      "\<And>p n. P (Call_submit_file p stg n)" "\<And>a p. P (Yield (Some a, p, None))"
      "\<And>e p. P (Yield (None, p, Some (Caught_SubmissionError e)))"
  shows "\<forall>ev \<in> set (log (snd (submit_files env body stg targets s))). P ev"
proof -
  obtain files s1 where r: "submit_files_resolve env body targets [] s = (files, s1)"
    by (cases "submit_files_resolve env body targets [] s")
  have 1: "\<forall>ev \<in> set (log s1). P ev"
    using submit_files_resolve_log_invariant [of P body s env targets "[]", OF body s ev(1,2,3)] r
    by simp
  show ?thesis
    using submit_files_each_log_invariant [of P body s1 stg env files, OF body 1 ev(4,5,6)] r
    by (simp add: submit_files_def)
qed

lemma submit_urls_log_invariant:
  assumes body: "\<And>r s. (\<forall>ev \<in> set (log s). P ev) \<Longrightarrow> (\<forall>ev \<in> set (log (body r s)). P ev)"
    and s: "\<forall>ev \<in> set (log s). P ev"
    and ev: "\<And>u. P (Call_submit_url u stg)" "\<And>a u. P (Yield (Some a, u, None))"
      "\<And>e u. P (Yield (None, u, Some (Caught_SubmissionError e)))"
  shows "\<forall>ev \<in> set (log (snd (submit_urls env body stg targets s))). P ev"
  using s
proof (induction targets arbitrary: s)
  case Nil
  then show ?case by simp
next
  case (Cons u targets)
  define s1 where "s1 = emit (Call_submit_url u stg) s"
  define r where "r = submitted body u (submit_url env (world s1) u stg) s1"
  have 1: "\<forall>ev \<in> set (log s1). P ev" using Cons.prems ev(1) by (simp add: s1_def)
  have 2: "\<forall>ev \<in> set (log (snd r)). P ev"
    unfolding r_def by (rule submitted_log_invariant [of P body, OF body 1 ev(2) ev(3)])
  have "submit_urls env body stg (u # targets) s
          = (case r of (Some x, s2) \<Rightarrow> (Some x, s2)
                     | (None, s2) \<Rightarrow> submit_urls env body stg targets s2)"
    by (simp add: s1_def r_def Let_def)
  then show ?case using Cons.IH [of "snd r"] 2
    by (cases r; cases "fst r") auto
qed

lemma report_log_invariant:
  assumes "\<And>m. P (Print_error m)" and "\<And>m. P (Print_info m)"
    and "\<forall>ev \<in> set (log s). P ev"
  shows "\<forall>ev \<in> set (log (report kind r s)). P ev"
  using assms by (simp add: report_def print_error_def print_info_def split: prod.splits)

lemma no_body_log_invariant:
  assumes "\<forall>ev \<in> set (log s). P ev"
  shows "\<forall>ev \<in> set (log (no_body r s)). P ev"
  using assms by (simp add: no_body_def)

lemma run_submitter_log_invariant:
  assumes s: "\<forall>ev \<in> set (log s). P ev"
    and pr: "\<And>m. P (Print_error m)" "\<And>m. P (Print_info m)"
    and ev: "\<And>p. P (Call_os_path_exists p)" "\<And>p. P (Call_enumerate_files p)"
      "\<And>p. P (Yield (None, p, Some (Message ''No such file or directory'')))"
      "\<And>p n. P (Call_submit_file p stg n)" "\<And>a p. P (Yield (Some a, p, None))"
      "\<And>e p. P (Yield (None, p, Some (Caught_SubmissionError e)))"
      "\<And>u. P (Call_submit_url u stg)"
  shows "\<forall>ev \<in> set (log (snd (run_submitter env stg target url s))). P ev"
proof (cases url)
  case True
  have b: "\<And>r s. (\<forall>ev \<in> set (log s). P ev) \<Longrightarrow> (\<forall>ev \<in> set (log (report ''URL'' r s)). P ev)"
    using report_log_invariant [of P, OF pr] by blast
  show ?thesis
    using submit_urls_log_invariant [of P "report ''URL''" s stg env target, OF b s ev(7) ev(5) ev(6)] True
    by (simp add: run_submitter_def)
next
  case False
  have b: "\<And>r s. (\<forall>ev \<in> set (log s). P ev) \<Longrightarrow> (\<forall>ev \<in> set (log (report ''file'' r s)). P ev)"
    using report_log_invariant [of P, OF pr] by blast
  show ?thesis
    using submit_files_log_invariant [of P "report ''file''" s stg env target, OF b s ev(1-6)] False
    by (simp add: run_submitter_def)
qed

lemma notify_finally_log_invariant:
  assumes "\<forall>ev \<in> set (log s). P ev" and "P Call_notify" and "\<And>m. P (Print_warning m)"
  shows "\<forall>ev \<in> set (log (snd (notify_finally env s))). P ev"
  using assms
  by (simp add: notify_finally_def Let_def print_warning_def
      split: prod.splits option.splits exn.splits)

lemma submission_dispatch_log_invariant:
  assumes s: "\<forall>ev \<in> set (log s). P ev"
    and pr: "\<And>m. P (Print_error m)" "\<And>m. P (Print_info m)"
    and ev: "\<And>p. P (Call_os_path_exists p)" "\<And>p. P (Call_enumerate_files p)"
      "\<And>p. P (Yield (None, p, Some (Message ''No such file or directory'')))"
      "\<And>p n. P (Call_submit_file p stg n)" "\<And>a p. P (Yield (Some a, p, None))"
      "\<And>e p. P (Yield (None, p, Some (Caught_SubmissionError e)))"
      "\<And>u. P (Call_submit_url u stg)"
    and nt: "P Call_notify" "\<And>m. P (Print_warning m)"
  shows "\<forall>ev \<in> set (log (snd (submission_dispatch env stg target url s))). P ev"
proof -
  obtain pending s1 where g: "run_submitter env stg target url s = (pending, s1)"
    by (cases "run_submitter env stg target url s")
  have 1: "\<forall>ev \<in> set (log s1). P ev"
    using run_submitter_log_invariant [of s P stg env target url, OF s pr ev] g by simp
  show ?thesis
    using notify_finally_log_invariant [of s1 P env, OF 1 nt] g
    by (simp add: submission_dispatch_def split: prod.splits)
qed

lemma submission_log_invariant:
  assumes pr: "\<And>m. P (Print_error m)" "\<And>m. P (Print_info m)"
    and ev: "\<And>p. P (Call_os_path_exists p)" "\<And>p. P (Call_enumerate_files p)"
      "\<And>p. P (Yield (None, p, Some (Message ''No such file or directory'')))"
      "\<And>a p. P (Yield (Some a, p, None))"
      "\<And>e p. P (Yield (None, p, Some (Caught_SubmissionError e)))"
    and nt: "P Call_notify" "\<And>m. P (Print_warning m)" "P Call_set_machinesdump_path"
    and stg: "\<And>stg pth n. submission_settings (verify_settings env) platform t p = Inr stg
                \<Longrightarrow> P (Call_submit_file pth stg n)"
      "\<And>stg u. submission_settings (verify_settings env) platform t p = Inr stg
                \<Longrightarrow> P (Call_submit_url u stg)"
  shows "\<forall>ev \<in> set (log (snd (submission env target url platform t p (start w)))). P ev"
proof -
  define s1 where "s1 = emit Call_set_machinesdump_path (start w)"
  obtain r w1 where m: "set_machinesdump_path env (world s1) = (r, w1)"
    by (cases "set_machinesdump_path env (world s1)")
  have 1: "\<forall>ev \<in> set (log (set_world w1 s1)). P ev" using nt(3) by (simp add: s1_def)
  show ?thesis
  proof (cases r)
    case (Some x)
    then show ?thesis
      using m 1 pr(1) unfolding submission_def s1_def [symmetric] Let_def
      by (simp add: exit_error_def print_error_def split: exn.splits)
  next
    case None
    show ?thesis
    proof (cases "submission_settings (verify_settings env) platform t p")
      case (Inl x)
      then show ?thesis
        using m None 1 pr(1) unfolding submission_def s1_def [symmetric] Let_def
        by (simp add: exit_error_def print_error_def split: exn.splits)
    next
      case (Inr g)
      have "\<forall>ev \<in> set (log (snd (submission_dispatch env g target url (set_world w1 s1)))). P ev"
        by (rule submission_dispatch_log_invariant
              [of "set_world w1 s1" P g env target url,
               OF 1 pr ev(1,2,3) stg(1) [OF Inr] ev(4,5) stg(2) [OF Inr] nt(1,2)])
      then show ?thesis
        using m None Inr unfolding submission_def s1_def [symmetric] Let_def by simp
    qed
  qed
qed

subsection \<open>The manual flag\<close>

text \<open>
  C9. Every settings value the submit command builds has the manual flag set to False:
  for every combination of arguments, if the settings are built they are non-manual, and
  every call of the submission collaborator that the command makes passes non-manual
  settings.
\<close>

theorem submit_settings_never_manual:
  "(\<forall>stg. submission_settings verify platform t p = Inr stg \<longrightarrow> manual stg = False)
   \<and> (\<forall>ev \<in> set (log (snd (submission env target url platform t p (start w)))).
        \<forall>stg. passes_settings ev = Some stg \<longrightarrow> manual stg = False)"
proof -
  have built: "submission_settings v platform t p = Inr stg \<Longrightarrow> manual stg = False" for v stg
    by (auto simp: submission_settings_eq split: if_splits option.splits)
  have "\<forall>ev \<in> set (log (snd (submission env target url platform t p (start w)))).
        \<forall>stg. passes_settings ev = Some stg \<longrightarrow> manual stg = False"
    by (rule submission_log_invariant) (simp_all add: built)
  then show ?thesis using built by blast
qed

theorem submit_settings_never_manual_witness:
  "submission_settings (\<lambda>s. None) [''windows,10''] 120 1 =
     Inr \<lparr>timeout = 120, priority = 1, manual = False, platforms = [(''windows'', Some ''10'')]\<rparr>
   \<and> manual \<lparr>timeout = 120, priority = 1, manual = False,
               platforms = [(''windows'', Some ''10'')]\<rparr> = False
   \<and> Call_submit_url ''u'' \<lparr>timeout = 120, priority = 1, manual = False,
                              platforms = [(''windows'', Some ''10'')]\<rparr>
       \<in> set (log (snd (submission sample_env [''u''] True [''windows,10''] 120 1 (start 0))))"
proof -
  have built: "submission_settings (\<lambda>s. None) [''windows,10''] 120 1 =
     Inr \<lparr>timeout = 120, priority = 1, manual = False, platforms = [(''windows'', Some ''10'')]\<rparr>"
    by (simp add: submission_settings_eq spec_platform_entry_def)
  have run: "Call_submit_url ''u'' \<lparr>timeout = 120, priority = 1, manual = False,
                              platforms = [(''windows'', Some ''10'')]\<rparr>
       \<in> set (log (snd (submission sample_env [''u''] True [''windows,10''] 120 1 (start 0))))"
    by (simp add: submission_def Let_def sample_env_def built submission_dispatch_def
          run_submitter_def submitted_def yield_def report_def print_info_def
          notify_finally_def)
  show ?thesis
    using built run
      submit_settings_never_manual
        [of "\<lambda>s. None" "[''windows,10'']" 120 1 sample_env "[''u'']" True 0]
    by simp
qed

subsection \<open>The shape of every result\<close>

lemma in_yielded: "r \<in> set (yielded evs) \<longleftrightarrow> Yield r \<in> set evs"
  by (induction evs rule: yielded.induct) auto

lemma in_results: "r \<in> set (results s) \<longleftrightarrow> Yield r \<in> set (log s)"
  by (simp add: results_def in_yielded)

lemma results_emit [simp]: "results (emit ev s) = results s @ yielded [ev]"
  by (simp add: results_def yielded_append)

text \<open>
  C5. Every result the dispatcher emits, for files and for URLs, has exactly one of the
  analysis id and the error present, never both and never neither: this holds of every
  value either generator yields, consumed on its own or by the loop of the command.
\<close>

theorem every_result_has_id_or_error:
  "(\<forall>r \<in> set (results (snd (submit_files env no_body stg targets (start w)))).
      one_of_id_and_error r)
   \<and> (\<forall>r \<in> set (results (snd (submit_urls env no_body stg targets (start w)))).
      one_of_id_and_error r)
   \<and> (\<forall>r \<in> set (results (snd (run_submitter env stg targets url (start w)))).
      one_of_id_and_error r)"
proof -
  let ?P = "\<lambda>ev. \<forall>r. ev = Yield r \<longrightarrow> one_of_id_and_error r"
  have nb: "\<And>r s. (\<forall>ev \<in> set (log s). ?P ev) \<Longrightarrow> (\<forall>ev \<in> set (log (no_body r s)). ?P ev)"
    by (simp add: no_body_def)
  have s0: "\<forall>ev \<in> set (log (start w)). ?P ev" by simp
  have files: "\<forall>ev \<in> set (log (snd (submit_files env no_body stg targets (start w)))). ?P ev"
    by (rule submit_files_log_invariant [of ?P no_body, OF nb s0])
      (simp_all add: one_of_id_and_error_def analysis_id_def error_of_def)
  have urls: "\<forall>ev \<in> set (log (snd (submit_urls env no_body stg targets (start w)))). ?P ev"
    by (rule submit_urls_log_invariant [of ?P no_body, OF nb s0])
      (simp_all add: one_of_id_and_error_def analysis_id_def error_of_def)
  have cmd: "\<forall>ev \<in> set (log (snd (run_submitter env stg targets url (start w)))). ?P ev"
    by (rule run_submitter_log_invariant [of "start w" ?P, OF s0])
      (simp_all add: one_of_id_and_error_def analysis_id_def error_of_def)
  show ?thesis using files urls cmd by (auto simp: in_results)
qed

theorem every_result_has_id_or_error_witness:
  "results (snd (submit_files sample_env no_body sample_settings [''/missing'', ''/dir''] (start 0)))
     = [(None, ''/missing'', Some (Message ''No such file or directory'')),
        (Some ''id-a'', ''/dir/a'', None),
        (None, ''/dir/b'', Some (Caught_SubmissionError ''rejected''))]
   \<and> one_of_id_and_error (None, ''/missing'', Some (Message ''No such file or directory''))
   \<and> one_of_id_and_error (Some ''id-a'', ''/dir/a'', None)
   \<and> one_of_id_and_error (None, ''/dir/b'', Some (Caught_SubmissionError ''rejected''))
   \<and> results (snd (submit_urls sample_env no_body sample_settings [''bad'', ''u''] (start 0)))
     = [(None, ''bad'', Some (Caught_SubmissionError ''rejected'')), (Some ''id-u'', ''u'', None)]
   \<and> one_of_id_and_error (None, ''bad'', Some (Caught_SubmissionError ''rejected''))
   \<and> one_of_id_and_error (Some ''id-u'', ''u'', None)
   \<and> results (snd (run_submitter sample_env sample_settings [''u''] True (start 0)))
     = [(Some ''id-u'', ''u'', None)]"
proof -
  have f: "results (snd (submit_files sample_env no_body sample_settings [''/missing'', ''/dir''] (start 0)))
     = [(None, ''/missing'', Some (Message ''No such file or directory'')),
        (Some ''id-a'', ''/dir/a'', None),
        (None, ''/dir/b'', Some (Caught_SubmissionError ''rejected''))]"
    by (simp add: submit_files_def Let_def sample_env_def submitted_def yield_def no_body_def
          basename_def)
  have u: "results (snd (submit_urls sample_env no_body sample_settings [''bad'', ''u''] (start 0)))
     = [(None, ''bad'', Some (Caught_SubmissionError ''rejected'')), (Some ''id-u'', ''u'', None)]"
    by (simp add: Let_def sample_env_def submitted_def yield_def no_body_def)
  have c: "results (snd (run_submitter sample_env sample_settings [''u''] True (start 0)))
     = [(Some ''id-u'', ''u'', None)]"
    by (simp add: run_submitter_def Let_def sample_env_def submitted_def yield_def report_def
          print_info_def results_def yielded_append)
  show ?thesis
    using f u c
      every_result_has_id_or_error
        [of sample_env sample_settings "[''/missing'', ''/dir'']" 0]
      every_result_has_id_or_error
        [of sample_env sample_settings "[''bad'', ''u'']" 0]
      every_result_has_id_or_error
        [of sample_env sample_settings "[''u'']" 0 True]
    by simp
qed

subsection \<open>The results of the two loops\<close>

lemma length_file_outcomes [simp]: "length (file_outcomes env stg units w) = length units"
  by (induction units arbitrary: w) (auto split: prod.splits)

lemma length_url_outcomes [simp]: "length (url_outcomes env stg units w) = length units"
  by (induction units arbitrary: w) (auto split: prod.splits)

lemma submitted_in_interface:
  assumes "observer body" and "in_interface r"
  shows "fst (submitted body u (r, w) s) = None"
    and "world (snd (submitted body u (r, w) s)) = w"
    and "map Some (results (snd (submitted body u (r, w) s))) = map Some (results s) @ [as_result u r]"
proof -
  show "fst (submitted body u (r, w) s) = None"
    using assms(2) by (cases r rule: in_interface.cases) (simp_all add: submitted_def)
  show "world (snd (submitted body u (r, w) s)) = w"
    using assms by (cases r rule: in_interface.cases) (simp_all add: submitted_def world_yield)
  show "map Some (results (snd (submitted body u (r, w) s))) = map Some (results s) @ [as_result u r]"
    using assms by (cases r rule: in_interface.cases) (simp_all add: submitted_def results_yield)
qed

lemma submitted_never_SubmissionError:
  "fst (submitted body u r s) \<noteq> Some (SubmissionError e)"
  by (simp add: submitted_def split: prod.splits sum.splits exn.splits)

lemma submit_files_each_results:
  assumes "observer body"
    and "\<forall>r \<in> set (file_outcomes env stg files (world s)). in_interface r"
  shows "fst (submit_files_each env body stg files s) = None \<and>
         map Some (results (snd (submit_files_each env body stg files s))) =
           map Some (results s) @ map2 as_result files (file_outcomes env stg files (world s))"
  using assms(2)
proof (induction files arbitrary: s)
  case Nil
  show ?case by simp
next
  case (Cons p files)
  obtain r w1 where call: "submit_file env (world s) p stg (basename p) = (r, w1)"
    by (cases "submit_file env (world s) p stg (basename p)")
  define s1 where "s1 = emit (Call_submit_file p stg (basename p)) s"
  define s2 where "s2 = snd (submitted body p (r, w1) s1)"
  have r: "in_interface r" and rest: "\<forall>r \<in> set (file_outcomes env stg files w1). in_interface r"
    using Cons.prems call by simp_all
  have f: "fst (submitted body p (r, w1) s1) = None" and w: "world s2 = w1"
    and rs: "map Some (results s2) = map Some (results s1) @ [as_result p r]"
    unfolding s2_def using submitted_in_interface [OF assms(1) r] by simp_all
  have sub: "submitted body p (r, w1) s1 = (None, s2)"
    using f by (simp add: s2_def prod_eq_iff)
  have step: "submit_files_each env body stg (p # files) s = submit_files_each env body stg files s2"
    using call sub by (simp add: s1_def Let_def)
  have rs1: "results s1 = results s" by (simp add: s1_def)
  show ?case
    unfolding step using Cons.IH [of s2] rest w rs rs1 call by simp
qed

lemma submit_urls_results:
  assumes "observer body"
    and "\<forall>r \<in> set (url_outcomes env stg urls (world s)). in_interface r"
  shows "fst (submit_urls env body stg urls s) = None \<and>
         map Some (results (snd (submit_urls env body stg urls s))) =
           map Some (results s) @ map2 as_result urls (url_outcomes env stg urls (world s))"
  using assms(2)
proof (induction urls arbitrary: s)
  case Nil
  show ?case by simp
next
  case (Cons u urls)
  obtain r w1 where call: "submit_url env (world s) u stg = (r, w1)"
    by (cases "submit_url env (world s) u stg")
  define s1 where "s1 = emit (Call_submit_url u stg) s"
  define s2 where "s2 = snd (submitted body u (r, w1) s1)"
  have r: "in_interface r" and rest: "\<forall>r \<in> set (url_outcomes env stg urls w1). in_interface r"
    using Cons.prems call by simp_all
  have f: "fst (submitted body u (r, w1) s1) = None" and w: "world s2 = w1"
    and rs: "map Some (results s2) = map Some (results s1) @ [as_result u r]"
    unfolding s2_def using submitted_in_interface [OF assms(1) r] by simp_all
  have sub: "submitted body u (r, w1) s1 = (None, s2)"
    using f by (simp add: s2_def prod_eq_iff)
  have step: "submit_urls env body stg (u # urls) s = submit_urls env body stg urls s2"
    using call sub by (simp add: s1_def Let_def)
  have rs1: "results s1 = results s" by (simp add: s1_def)
  show ?case
    unfolding step using Cons.IH [of s2] rest w rs rs1 call by simp
qed

lemma submit_files_each_never_SubmissionError:
  "fst (submit_files_each env body stg files s) \<noteq> Some (SubmissionError e)"
proof (induction files arbitrary: s)
  case Nil
  show ?case by simp
next
  case (Cons p files)
  define r where "r = submitted body p (submit_file env (world s) p stg (basename p))
                        (emit (Call_submit_file p stg (basename p)) s)"
  have "fst r \<noteq> Some (SubmissionError e)"
    unfolding r_def by (rule submitted_never_SubmissionError)
  then show ?case
    using Cons [of "snd r"] unfolding submit_files_each.simps Let_def world_emit r_def [symmetric]
    by (cases r; cases "fst r") auto
qed

lemma submit_urls_never_SubmissionError:
  "fst (submit_urls env body stg urls s) \<noteq> Some (SubmissionError e)"
proof (induction urls arbitrary: s)
  case Nil
  show ?case by simp
next
  case (Cons u urls)
  define r where "r = submitted body u (submit_url env (world s) u stg)
                        (emit (Call_submit_url u stg) s)"
  have "fst r \<noteq> Some (SubmissionError e)"
    unfolding r_def by (rule submitted_never_SubmissionError)
  then show ?case
    using Cons [of "snd r"] unfolding submit_urls.simps Let_def world_emit r_def [symmetric]
    by (cases r; cases "fst r") auto
qed

lemma submit_files_resolve_results:
  assumes "observer body"
  shows "fst (submit_files_resolve env body targets files s)
           = files @ concat (map (enumerate_files env (world s)) targets)
         \<and> world (snd (submit_files_resolve env body targets files s)) = world s
         \<and> results (snd (submit_files_resolve env body targets files s))
           = results s @ map not_found (missing_targets env (world s) targets)"
proof (induction targets arbitrary: files s)
  case Nil
  show ?case by (simp add: missing_targets_def)
next
  case (Cons p targets)
  define s1 where "s1 = emit (Call_os_path_exists p) s"
  define s2 where "s2 = (if \<not> os_path_exists env (world s1) p
                then yield body (None, p, Some (Message ''No such file or directory'')) s1
                else s1)"
  define s3 where "s3 = emit (Call_enumerate_files p) s2"
  have w: "world s3 = world s"
    by (simp add: s3_def s2_def s1_def world_yield [OF assms])
  have rs: "results s3 = results s @ map not_found (missing_targets env (world s) [p])"
    by (simp add: s3_def s2_def s1_def results_yield [OF assms] missing_targets_def not_found_def)
  have step: "submit_files_resolve env body (p # targets) files s
          = submit_files_resolve env body targets (files @ enumerate_files env (world s3) p) s3"
    by (simp add: s1_def s2_def s3_def Let_def)
  show ?case
    unfolding step using Cons [of "files @ enumerate_files env (world s3) p" s3] w rs
    by (simp add: missing_targets_def)
qed

lemma collected_is_resolved_units:
  assumes "\<forall>p \<in> set targets. \<not> os_path_exists env w p \<longrightarrow> enumerate_files env w p = []"
  shows "concat (map (enumerate_files env w) targets) = resolved_units env w targets"
  using assms unfolding resolved_units_def by (induction targets) auto

lemma targets_of_results:
  assumes "length outs = length units" and "\<forall>r \<in> set outs. in_interface r"
    and "map Some rs = map2 as_result units outs"
  shows "map target_of rs = units"
  using assms
proof (induction units arbitrary: outs rs)
  case Nil
  then show ?case by simp
next
  case (Cons u units)
  obtain r outs' where outs: "outs = r # outs'" using Cons.prems(1) by (cases outs) auto
  obtain x rs' where rs: "rs = x # rs'" using Cons.prems(3) outs by (cases rs) auto
  have "target_of x = u"
    using Cons.prems(2,3) outs rs
    by (cases r rule: in_interface.cases) (auto simp: target_of_def)
  then show ?case
    using Cons.IH [of outs' rs'] Cons.prems outs rs by simp
qed

subsection \<open>The results and the resolved units\<close>

lemma submit_files_results:
  assumes "observer body"
    and "\<forall>p \<in> set targets. \<not> os_path_exists env w p \<longrightarrow> enumerate_files env w p = []"
    and "\<forall>r \<in> set (file_outcomes env stg (resolved_units env w targets) w). in_interface r"
  shows "fst (submit_files env body stg targets (start w)) = None"
    and "map Some (results (snd (submit_files env body stg targets (start w))))
          = map (\<lambda>p. Some (not_found p)) (missing_targets env w targets)
            @ map2 as_result (resolved_units env w targets)
                (file_outcomes env stg (resolved_units env w targets) w)"
proof -
  obtain files s1 where r: "submit_files_resolve env body targets [] (start w) = (files, s1)"
    by (cases "submit_files_resolve env body targets [] (start w)")
  have "files = concat (map (enumerate_files env w) targets)"
    using submit_files_resolve_results [OF assms(1), of env targets "[]" "start w"] r by simp
  then have files: "files = resolved_units env w targets"
    using collected_is_resolved_units [OF assms(2)] by simp
  have w: "world s1 = w"
    and rs: "results s1 = map not_found (missing_targets env w targets)"
    using submit_files_resolve_results [OF assms(1), of env targets "[]" "start w"] r by simp_all
  have each: "fst (submit_files_each env body stg files s1) = None \<and>
         map Some (results (snd (submit_files_each env body stg files s1))) =
           map Some (results s1) @ map2 as_result files (file_outcomes env stg files (world s1))"
    by (rule submit_files_each_results [OF assms(1)]) (simp add: files w assms(3))
  show "fst (submit_files env body stg targets (start w)) = None"
    using each r by (simp add: submit_files_def)
  show "map Some (results (snd (submit_files env body stg targets (start w))))
          = map (\<lambda>p. Some (not_found p)) (missing_targets env w targets)
            @ map2 as_result (resolved_units env w targets)
                (file_outcomes env stg (resolved_units env w targets) w)"
    using each r by (simp add: submit_files_def rs files w comp_def)
qed

lemma target_of_not_found [simp]: "target_of (not_found p) = p"
  by (simp add: target_of_def not_found_def)

lemma targets_of_file_results:
  assumes "length outs = length units" and "\<forall>r \<in> set outs. in_interface r"
    and "map Some rs = map (\<lambda>p. Some (not_found p)) missing @ map2 as_result units outs"
  shows "map target_of rs = missing @ units"
proof -
  let ?k = "length missing"
  have m: "map Some rs = map Some (map not_found missing) @ map2 as_result units outs"
    using assms(3) by (simp add: comp_def)
  have "take ?k (map Some rs) = map Some (map not_found missing)" using m by simp
  then have "map Some (take ?k rs) = map Some (map not_found missing)" by (simp add: take_map)
  then have hd: "take ?k rs = map not_found missing"
    by (rule map_injective) (simp add: inj_on_def)
  have "drop ?k (map Some rs) = map2 as_result units outs" using m by simp
  then have "map Some (drop ?k rs) = map2 as_result units outs" by (simp add: drop_map)
  then have tl: "map target_of (drop ?k rs) = units"
    using targets_of_results [OF assms(1,2)] by blast
  have "map target_of rs = map target_of (take ?k rs) @ map target_of (drop ?k rs)"
    by (metis append_take_drop_id map_append)
  then show ?thesis using hd tl by (simp add: comp_def)
qed

text \<open>
  C2, the claim as stated: the dispatcher produces exactly one result per resolved unit,
  in the order the units are resolved, for every settings value, kind and list of raw
  targets. Two runs where it does not. For the file targets \<open>/x\<close>, \<open>/missing\<close>,
  \<open>/y\<close> the resolved units are \<open>/x\<close> and \<open>/y\<close>, and the generator, which resolves
  every target before it submits any, emits three results, the one of \<open>/missing\<close>
  first. For two URLs whose submission raises an exception that is not a
  \<open>SubmissionError\<close> the generator is left at the first URL and emits no result.
\<close>

theorem dispatcher_results_are_not_the_units_in_order:
  "resolved_units sample_env 0 [''/x'', ''/missing'', ''/y''] = [''/x'', ''/y'']
   \<and> map target_of (results (snd
         (submit_files sample_env no_body sample_settings [''/x'', ''/missing'', ''/y''] (start 0))))
       = [''/missing'', ''/x'', ''/y'']
   \<and> fst (submit_urls broken_env no_body sample_settings [''u'', ''v''] (start 0))
       = Some (OtherException ''ConnectionError'')
   \<and> results (snd (submit_urls broken_env no_body sample_settings [''u'', ''v''] (start 0))) = []"
  by (simp add: resolved_units_def submit_files_def Let_def sample_env_def broken_env_def
      submitted_def yield_def no_body_def basename_def target_of_def)

text \<open>
  C2, amended. For every settings value, either kind and every ordered list of raw
  targets, where every submission returns an id or raises \<open>SubmissionError\<close>, the
  dispatcher runs to its end and produces a finite sequence of results. For URLs it is
  exactly one result per raw URL, in input order, each the id or the error its
  submission gave. For files, where enumerating a target that does not exist gives
  nothing, it is one not-found error per missing raw target, in input order, followed by
  exactly one result per resolved unit, in the order the units are resolved, each the id
  or the error its submission gave; the units are those of the existing targets, an
  existing target resolving to what \<open>enumerate_files\<close> returns for it. When every
  target is an existing single file that resolves to itself, the targets of the results
  are the raw targets in input order.
\<close>

theorem dispatcher_results_missing_then_units:
  assumes "observer body"
  shows
  "((\<forall>r \<in> set (url_outcomes env stg targets w). in_interface r) \<longrightarrow>
      fst (submit_urls env body stg targets (start w)) = None
      \<and> map Some (results (snd (submit_urls env body stg targets (start w))))
          = map2 as_result targets (url_outcomes env stg targets w)
      \<and> length (results (snd (submit_urls env body stg targets (start w)))) = length targets
      \<and> map target_of (results (snd (submit_urls env body stg targets (start w)))) = targets)
   \<and> ((\<forall>p \<in> set targets. \<not> os_path_exists env w p \<longrightarrow> enumerate_files env w p = [])
       \<and> (\<forall>r \<in> set (file_outcomes env stg (resolved_units env w targets) w). in_interface r) \<longrightarrow>
      fst (submit_files env body stg targets (start w)) = None
      \<and> map Some (results (snd (submit_files env body stg targets (start w))))
          = map (\<lambda>p. Some (not_found p)) (missing_targets env w targets)
            @ map2 as_result (resolved_units env w targets)
                (file_outcomes env stg (resolved_units env w targets) w)
      \<and> length (results (snd (submit_files env body stg targets (start w))))
          = length (missing_targets env w targets) + length (resolved_units env w targets)
      \<and> map target_of (results (snd (submit_files env body stg targets (start w))))
          = missing_targets env w targets @ resolved_units env w targets
      \<and> ((\<forall>p \<in> set targets. os_path_exists env w p \<and> enumerate_files env w p = [p]) \<longrightarrow>
           map target_of (results (snd (submit_files env body stg targets (start w)))) = targets))"
proof -
  have urls: "fst (submit_urls env body stg targets (start w)) = None
      \<and> map Some (results (snd (submit_urls env body stg targets (start w))))
          = map2 as_result targets (url_outcomes env stg targets w)
      \<and> length (results (snd (submit_urls env body stg targets (start w)))) = length targets
      \<and> map target_of (results (snd (submit_urls env body stg targets (start w)))) = targets"
    if a: "\<forall>r \<in> set (url_outcomes env stg targets w). in_interface r"
  proof -
    let ?rs = "results (snd (submit_urls env body stg targets (start w)))"
    have r: "fst (submit_urls env body stg targets (start w)) = None \<and>
         map Some ?rs =
           map Some (results (start w)) @ map2 as_result targets (url_outcomes env stg targets (world (start w)))"
      by (rule submit_urls_results [OF assms]) (simp add: a)
    then have m: "map Some ?rs = map2 as_result targets (url_outcomes env stg targets w)"
      by simp
    have t: "map target_of ?rs = targets"
      using targets_of_results [of "url_outcomes env stg targets w" targets ?rs] a m by simp
    have "length (map target_of ?rs) = length targets" by (simp only: t)
    then have "length ?rs = length targets" by simp
    then show ?thesis using r m t by simp
  qed
  have files: "fst (submit_files env body stg targets (start w)) = None
      \<and> map Some (results (snd (submit_files env body stg targets (start w))))
          = map (\<lambda>p. Some (not_found p)) (missing_targets env w targets)
            @ map2 as_result (resolved_units env w targets)
                (file_outcomes env stg (resolved_units env w targets) w)
      \<and> length (results (snd (submit_files env body stg targets (start w))))
          = length (missing_targets env w targets) + length (resolved_units env w targets)
      \<and> map target_of (results (snd (submit_files env body stg targets (start w))))
          = missing_targets env w targets @ resolved_units env w targets
      \<and> ((\<forall>p \<in> set targets. os_path_exists env w p \<and> enumerate_files env w p = [p]) \<longrightarrow>
           map target_of (results (snd (submit_files env body stg targets (start w)))) = targets)"
    if e: "\<forall>p \<in> set targets. \<not> os_path_exists env w p \<longrightarrow> enumerate_files env w p = []"
      and a: "\<forall>r \<in> set (file_outcomes env stg (resolved_units env w targets) w). in_interface r"
  proof -
    let ?rs = "results (snd (submit_files env body stg targets (start w)))"
    have st: "fst (submit_files env body stg targets (start w)) = None"
      and rs: "map Some ?rs
          = map (\<lambda>p. Some (not_found p)) (missing_targets env w targets)
            @ map2 as_result (resolved_units env w targets)
                (file_outcomes env stg (resolved_units env w targets) w)"
      using submit_files_results [OF assms e a] by simp_all
    have order: "map target_of ?rs = missing_targets env w targets @ resolved_units env w targets"
      by (rule targets_of_file_results [OF _ a rs]) simp
    have "length (map target_of ?rs)
            = length (missing_targets env w targets @ resolved_units env w targets)"
      by (simp only: order)
    then have len: "length ?rs
            = length (missing_targets env w targets) + length (resolved_units env w targets)"
      by simp
    have single: "map target_of ?rs = targets"
      if s: "\<forall>p \<in> set targets. os_path_exists env w p \<and> enumerate_files env w p = [p]"
    proof -
      have "missing_targets env w targets = []"
        using s by (simp add: missing_targets_def)
      moreover have "resolved_units env w targets = targets"
        unfolding resolved_units_def using s by (induction targets) simp_all
      ultimately show ?thesis using order by simp
    qed
    show ?thesis using st rs len order single by blast
  qed
  show ?thesis using urls files by blast
qed

theorem dispatcher_results_missing_then_units_witness:
  "observer (no_body :: nat body)
   \<and> url_outcomes sample_env sample_settings [''bad'', ''u''] 0
       = [Inl (SubmissionError ''rejected''), Inr ''id-u'']
   \<and> results (snd (submit_urls sample_env no_body sample_settings [''bad'', ''u''] (start 0)))
       = [(None, ''bad'', Some (Caught_SubmissionError ''rejected'')), (Some ''id-u'', ''u'', None)]
   \<and> enumerate_files sample_env 0 ''/missing'' = []
   \<and> resolved_units sample_env 0 [''/x'', ''/missing'', ''/dir''] = [''/x'', ''/dir/a'', ''/dir/b'']
   \<and> file_outcomes sample_env sample_settings [''/x'', ''/dir/a'', ''/dir/b''] 0
       = [Inr ''id-x'', Inr ''id-a'', Inl (SubmissionError ''rejected'')]
   \<and> missing_targets sample_env 0 [''/x'', ''/missing'', ''/dir''] = [''/missing'']
   \<and> fst (submit_files sample_env no_body sample_settings [''/x'', ''/missing'', ''/dir''] (start 0)) = None
   \<and> results (snd (submit_files sample_env no_body sample_settings [''/x'', ''/missing'', ''/dir''] (start 0)))
       = [not_found ''/missing'', (Some ''id-x'', ''/x'', None), (Some ''id-a'', ''/dir/a'', None),
          (None, ''/dir/b'', Some (Caught_SubmissionError ''rejected''))]
   \<and> map target_of (results (snd (submit_files sample_env no_body sample_settings [''/y'', ''/x''] (start 0))))
       = [''/y'', ''/x'']"
proof -
  have uo: "url_outcomes sample_env sample_settings [''bad'', ''u''] 0
       = [Inl (SubmissionError ''rejected''), Inr ''id-u'']"
    by (simp add: sample_env_def)
  have en: "enumerate_files sample_env 0 ''/missing'' = []"
    by (simp add: sample_env_def)
  have ru: "resolved_units sample_env 0 [''/x'', ''/missing'', ''/dir''] = [''/x'', ''/dir/a'', ''/dir/b'']"
    by (simp add: resolved_units_def sample_env_def)
  have fo: "file_outcomes sample_env sample_settings [''/x'', ''/dir/a'', ''/dir/b''] 0
       = [Inr ''id-x'', Inr ''id-a'', Inl (SubmissionError ''rejected'')]"
    by (simp add: sample_env_def basename_def)
  have mt: "missing_targets sample_env 0 [''/x'', ''/missing'', ''/dir''] = [''/missing'']"
    by (simp add: missing_targets_def sample_env_def)
  have ru2: "resolved_units sample_env 0 [''/y'', ''/x''] = [''/y'', ''/x'']"
    by (simp add: resolved_units_def sample_env_def)
  have fo2: "file_outcomes sample_env sample_settings [''/y'', ''/x''] 0 = [Inr ''id-y'', Inr ''id-x'']"
    by (simp add: sample_env_def basename_def)
  have single: "\<forall>p \<in> set [''/y'', ''/x'']. os_path_exists sample_env 0 p \<and> enumerate_files sample_env 0 p = [p]"
    by (simp add: sample_env_def)
  have hu: "\<forall>r \<in> set (url_outcomes sample_env sample_settings [''bad'', ''u''] 0). in_interface r"
    unfolding uo by simp
  have hf: "(\<forall>p \<in> set [''/x'', ''/missing'', ''/dir''].
               \<not> os_path_exists sample_env 0 p \<longrightarrow> enumerate_files sample_env 0 p = [])
        \<and> (\<forall>r \<in> set (file_outcomes sample_env sample_settings
                (resolved_units sample_env 0 [''/x'', ''/missing'', ''/dir'']) 0). in_interface r)"
    unfolding ru fo by (simp add: sample_env_def)
  have hf2: "(\<forall>p \<in> set [''/y'', ''/x''].
               \<not> os_path_exists sample_env 0 p \<longrightarrow> enumerate_files sample_env 0 p = [])
        \<and> (\<forall>r \<in> set (file_outcomes sample_env sample_settings
                (resolved_units sample_env 0 [''/y'', ''/x'']) 0). in_interface r)"
    unfolding ru2 fo2 by (simp add: sample_env_def)
  note t1 = dispatcher_results_missing_then_units
      [OF observer_no_body, of sample_env sample_settings "[''bad'', ''u'']" 0]
  note t2 = dispatcher_results_missing_then_units
      [OF observer_no_body, of sample_env sample_settings "[''/x'', ''/missing'', ''/dir'']" 0]
  note t3 = dispatcher_results_missing_then_units
      [OF observer_no_body, of sample_env sample_settings "[''/y'', ''/x'']" 0]
  have "map Some (results (snd (submit_urls sample_env no_body sample_settings [''bad'', ''u''] (start 0))))
       = map2 as_result [''bad'', ''u''] (url_outcomes sample_env sample_settings [''bad'', ''u''] 0)"
    using mp [OF t1 [THEN conjunct1] hu] by blast
  then have "map Some (results (snd (submit_urls sample_env no_body sample_settings [''bad'', ''u''] (start 0))))
       = map Some [(None, ''bad'', Some (Caught_SubmissionError ''rejected'')), (Some ''id-u'', ''u'', None)]"
    unfolding uo by simp
  then have a: "results (snd (submit_urls sample_env no_body sample_settings [''bad'', ''u''] (start 0)))
       = [(None, ''bad'', Some (Caught_SubmissionError ''rejected'')), (Some ''id-u'', ''u'', None)]"
    by (rule map_injective) (simp add: inj_on_def)
  have st: "fst (submit_files sample_env no_body sample_settings [''/x'', ''/missing'', ''/dir''] (start 0)) = None"
    using mp [OF t2 [THEN conjunct2] hf] by blast
  have "map Some (results (snd (submit_files sample_env no_body sample_settings [''/x'', ''/missing'', ''/dir''] (start 0))))
       = map (\<lambda>p. Some (not_found p)) (missing_targets sample_env 0 [''/x'', ''/missing'', ''/dir''])
            @ map2 as_result (resolved_units sample_env 0 [''/x'', ''/missing'', ''/dir''])
                (file_outcomes sample_env sample_settings
                   (resolved_units sample_env 0 [''/x'', ''/missing'', ''/dir'']) 0)"
    using mp [OF t2 [THEN conjunct2] hf] by blast
  then have "map Some (results (snd (submit_files sample_env no_body sample_settings [''/x'', ''/missing'', ''/dir''] (start 0))))
       = map Some [not_found ''/missing'', (Some ''id-x'', ''/x'', None), (Some ''id-a'', ''/dir/a'', None),
          (None, ''/dir/b'', Some (Caught_SubmissionError ''rejected''))]"
    unfolding ru fo mt by simp
  then have b: "results (snd (submit_files sample_env no_body sample_settings [''/x'', ''/missing'', ''/dir''] (start 0)))
       = [not_found ''/missing'', (Some ''id-x'', ''/x'', None), (Some ''id-a'', ''/dir/a'', None),
          (None, ''/dir/b'', Some (Caught_SubmissionError ''rejected''))]"
    by (rule map_injective) (simp add: inj_on_def)
  have c: "map target_of (results (snd (submit_files sample_env no_body sample_settings [''/y'', ''/x''] (start 0))))
       = [''/y'', ''/x'']"
    using mp [OF t3 [THEN conjunct2] hf2] single by blast
  show ?thesis using observer_no_body uo en ru fo mt st a b c by simp
qed

subsection \<open>A failing unit does not stop the others\<close>

lemma nth_of_results:
  assumes "map Some rs = map2 as_result units outs" and "length outs = length units"
    and "i < length units"
  shows "Some (rs ! i) = as_result (units ! i) (outs ! i)" and "length rs = length units"
proof -
  have len: "length rs = length units"
    using arg_cong [OF assms(1), of length] assms(2) by simp
  then have "map Some rs ! i = map2 as_result units outs ! i" using assms(1) by simp
  then show "Some (rs ! i) = as_result (units ! i) (outs ! i)"
    using len assms(2,3) by simp
  show "length rs = length units" by (rule len)
qed

text \<open>
  C4. For every list of N submitted units: a \<open>SubmissionError\<close> never leaves either
  loop, whatever the collaborator does; and where every submission returns an id or
  raises \<open>SubmissionError\<close>, and the submission of unit \<open>i\<close> raises
  \<open>SubmissionError e\<close>, the loop runs to its end, emits N results whose targets are
  the N units in order, and the result of unit \<open>i\<close> carries that error and no id.
  This holds of the second loop of \<open>_submit_files\<close> and of \<open>_submit_urls\<close>.
\<close>

theorem submission_error_is_caught_and_isolated:
  assumes "observer body"
  shows
  "(\<forall>x. fst (submit_files_each env body stg units (start w)) \<noteq> Some (SubmissionError x))
   \<and> (\<forall>x. fst (submit_urls env body stg units (start w)) \<noteq> Some (SubmissionError x))
   \<and> ((\<forall>r \<in> set (file_outcomes env stg units w). in_interface r)
        \<and> i < length units \<and> file_outcomes env stg units w ! i = Inl (SubmissionError e) \<longrightarrow>
          fst (submit_files_each env body stg units (start w)) = None
          \<and> length (results (snd (submit_files_each env body stg units (start w)))) = length units
          \<and> map target_of (results (snd (submit_files_each env body stg units (start w)))) = units
          \<and> results (snd (submit_files_each env body stg units (start w))) ! i
              = (None, units ! i, Some (Caught_SubmissionError e)))
   \<and> ((\<forall>r \<in> set (url_outcomes env stg units w). in_interface r)
        \<and> i < length units \<and> url_outcomes env stg units w ! i = Inl (SubmissionError e) \<longrightarrow>
          fst (submit_urls env body stg units (start w)) = None
          \<and> length (results (snd (submit_urls env body stg units (start w)))) = length units
          \<and> map target_of (results (snd (submit_urls env body stg units (start w)))) = units
          \<and> results (snd (submit_urls env body stg units (start w))) ! i
              = (None, units ! i, Some (Caught_SubmissionError e)))"
proof -
  have files: "fst (submit_files_each env body stg units (start w)) = None
          \<and> length (results (snd (submit_files_each env body stg units (start w)))) = length units
          \<and> map target_of (results (snd (submit_files_each env body stg units (start w)))) = units
          \<and> results (snd (submit_files_each env body stg units (start w))) ! i
              = (None, units ! i, Some (Caught_SubmissionError e))"
    if a: "\<forall>r \<in> set (file_outcomes env stg units w). in_interface r"
      and i: "i < length units" and f: "file_outcomes env stg units w ! i = Inl (SubmissionError e)"
  proof -
    let ?rs = "results (snd (submit_files_each env body stg units (start w)))"
    have r: "fst (submit_files_each env body stg units (start w)) = None \<and>
         map Some ?rs = map Some (results (start w))
            @ map2 as_result units (file_outcomes env stg units (world (start w)))"
      by (rule submit_files_each_results [OF assms]) (simp add: a)
    then have m: "map Some ?rs = map2 as_result units (file_outcomes env stg units w)" by simp
    have "Some (?rs ! i) = as_result (units ! i) (file_outcomes env stg units w ! i)"
      and len: "length ?rs = length units"
      using nth_of_results [OF m _ i] by simp_all
    then have nth: "?rs ! i = (None, units ! i, Some (Caught_SubmissionError e))"
      by (simp add: f)
    have "map target_of ?rs = units"
      using targets_of_results [of "file_outcomes env stg units w" units ?rs] a m by simp
    then show ?thesis using r len nth by simp
  qed
  have urls: "fst (submit_urls env body stg units (start w)) = None
          \<and> length (results (snd (submit_urls env body stg units (start w)))) = length units
          \<and> map target_of (results (snd (submit_urls env body stg units (start w)))) = units
          \<and> results (snd (submit_urls env body stg units (start w))) ! i
              = (None, units ! i, Some (Caught_SubmissionError e))"
    if a: "\<forall>r \<in> set (url_outcomes env stg units w). in_interface r"
      and i: "i < length units" and f: "url_outcomes env stg units w ! i = Inl (SubmissionError e)"
  proof -
    let ?rs = "results (snd (submit_urls env body stg units (start w)))"
    have r: "fst (submit_urls env body stg units (start w)) = None \<and>
         map Some ?rs = map Some (results (start w))
            @ map2 as_result units (url_outcomes env stg units (world (start w)))"
      by (rule submit_urls_results [OF assms]) (simp add: a)
    then have m: "map Some ?rs = map2 as_result units (url_outcomes env stg units w)" by simp
    have "Some (?rs ! i) = as_result (units ! i) (url_outcomes env stg units w ! i)"
      and len: "length ?rs = length units"
      using nth_of_results [OF m _ i] by simp_all
    then have nth: "?rs ! i = (None, units ! i, Some (Caught_SubmissionError e))"
      by (simp add: f)
    have "map target_of ?rs = units"
      using targets_of_results [of "url_outcomes env stg units w" units ?rs] a m by simp
    then show ?thesis using r len nth by simp
  qed
  show ?thesis
    using files urls submit_files_each_never_SubmissionError [of env body stg units "start w"]
      submit_urls_never_SubmissionError [of env body stg units "start w"]
    by blast
qed

theorem submission_error_is_caught_and_isolated_witness:
  "observer (no_body :: nat body)
   \<and> file_outcomes sample_env sample_settings [''/dir/a'', ''/dir/b'', ''/x''] 0
       = [Inr ''id-a'', Inl (SubmissionError ''rejected''), Inr ''id-x'']
   \<and> fst (submit_files_each sample_env no_body sample_settings [''/dir/a'', ''/dir/b'', ''/x''] (start 0)) = None
   \<and> length (results (snd (submit_files_each sample_env no_body sample_settings
                [''/dir/a'', ''/dir/b'', ''/x''] (start 0)))) = 3
   \<and> results (snd (submit_files_each sample_env no_body sample_settings
                [''/dir/a'', ''/dir/b'', ''/x''] (start 0))) ! 1
       = (None, ''/dir/b'', Some (Caught_SubmissionError ''rejected''))
   \<and> url_outcomes sample_env sample_settings [''bad'', ''u''] 0
       = [Inl (SubmissionError ''rejected''), Inr ''id-u'']
   \<and> fst (submit_urls sample_env no_body sample_settings [''bad'', ''u''] (start 0)) = None
   \<and> map target_of (results (snd (submit_urls sample_env no_body sample_settings
                [''bad'', ''u''] (start 0)))) = [''bad'', ''u'']
   \<and> results (snd (submit_urls sample_env no_body sample_settings [''bad'', ''u''] (start 0))) ! 0
       = (None, ''bad'', Some (Caught_SubmissionError ''rejected''))"
proof -
  have fo: "file_outcomes sample_env sample_settings [''/dir/a'', ''/dir/b'', ''/x''] 0
       = [Inr ''id-a'', Inl (SubmissionError ''rejected''), Inr ''id-x'']"
    by (simp add: sample_env_def basename_def)
  have uo: "url_outcomes sample_env sample_settings [''bad'', ''u''] 0
       = [Inl (SubmissionError ''rejected''), Inr ''id-u'']"
    by (simp add: sample_env_def)
  have hf: "(\<forall>r \<in> set (file_outcomes sample_env sample_settings [''/dir/a'', ''/dir/b'', ''/x''] 0).
               in_interface r)
        \<and> 1 < length [''/dir/a'', ''/dir/b'', ''/x'']
        \<and> file_outcomes sample_env sample_settings [''/dir/a'', ''/dir/b'', ''/x''] 0 ! 1
            = Inl (SubmissionError ''rejected'')"
    unfolding fo by simp
  have hu: "(\<forall>r \<in> set (url_outcomes sample_env sample_settings [''bad'', ''u''] 0). in_interface r)
        \<and> 0 < length [''bad'', ''u'']
        \<and> url_outcomes sample_env sample_settings [''bad'', ''u''] 0 ! 0
            = Inl (SubmissionError ''rejected'')"
    unfolding uo by simp
  note t1 = submission_error_is_caught_and_isolated
      [OF observer_no_body, of sample_env sample_settings "[''/dir/a'', ''/dir/b'', ''/x'']" 0 1
         "''rejected''"]
  note t2 = submission_error_is_caught_and_isolated
      [OF observer_no_body, of sample_env sample_settings "[''bad'', ''u'']" 0 0 "''rejected''"]
  have a: "fst (submit_files_each sample_env no_body sample_settings [''/dir/a'', ''/dir/b'', ''/x''] (start 0)) = None
          \<and> length (results (snd (submit_files_each sample_env no_body sample_settings
                [''/dir/a'', ''/dir/b'', ''/x''] (start 0)))) = length [''/dir/a'', ''/dir/b'', ''/x'']
          \<and> map target_of (results (snd (submit_files_each sample_env no_body sample_settings
                [''/dir/a'', ''/dir/b'', ''/x''] (start 0)))) = [''/dir/a'', ''/dir/b'', ''/x'']
          \<and> results (snd (submit_files_each sample_env no_body sample_settings
                [''/dir/a'', ''/dir/b'', ''/x''] (start 0))) ! 1
              = (None, [''/dir/a'', ''/dir/b'', ''/x''] ! 1, Some (Caught_SubmissionError ''rejected''))"
    by (rule mp [OF t1 [THEN conjunct2, THEN conjunct2, THEN conjunct1] hf])
  have b: "fst (submit_urls sample_env no_body sample_settings [''bad'', ''u''] (start 0)) = None
          \<and> length (results (snd (submit_urls sample_env no_body sample_settings
                [''bad'', ''u''] (start 0)))) = length [''bad'', ''u'']
          \<and> map target_of (results (snd (submit_urls sample_env no_body sample_settings
                [''bad'', ''u''] (start 0)))) = [''bad'', ''u'']
          \<and> results (snd (submit_urls sample_env no_body sample_settings [''bad'', ''u''] (start 0))) ! 0
              = (None, [''bad'', ''u''] ! 0, Some (Caught_SubmissionError ''rejected''))"
    by (rule mp [OF t2 [THEN conjunct2, THEN conjunct2, THEN conjunct2] hu])
  have a': "length (results (snd (submit_files_each sample_env no_body sample_settings
                [''/dir/a'', ''/dir/b'', ''/x''] (start 0)))) = 3
     \<and> results (snd (submit_files_each sample_env no_body sample_settings
                [''/dir/a'', ''/dir/b'', ''/x''] (start 0))) ! 1
       = (None, ''/dir/b'', Some (Caught_SubmissionError ''rejected''))"
    using a by simp
  have b': "results (snd (submit_urls sample_env no_body sample_settings [''bad'', ''u''] (start 0))) ! 0
       = (None, ''bad'', Some (Caught_SubmissionError ''rejected''))"
    using b by simp
  show ?thesis using observer_no_body fo uo a a' b b' by blast
qed

subsection \<open>A target that does not exist\<close>

text \<open>
  C1. The claim: for a raw file target that does not exist, one result with the error
  \<open>No such file or directory\<close> and no id is emitted, and neither the enumeration nor
  a submission is attempted for it. The run of \<open>_submit_files\<close> on the single missing
  target \<open>/missing\<close>: after the existence check and the error result, the generator
  goes on to call \<open>enumerate_files\<close> on the missing path (there is no \<open>continue\<close>
  after the \<open>yield\<close> of line 172).
\<close>

theorem missing_target_is_still_enumerated:
  "os_path_exists sample_env 0 ''/missing'' = False
   \<and> log (snd (submit_files sample_env no_body sample_settings [''/missing''] (start 0)))
       = [Call_os_path_exists ''/missing'',
          Yield (None, ''/missing'', Some (Message ''No such file or directory'')),
          Call_enumerate_files ''/missing'']"
  by (simp add: submit_files_def Let_def sample_env_def yield_def no_body_def)

subsection \<open>The notification\<close>

lemma submission_reaches_dispatch:
  assumes "set_machinesdump_path env w = (None, w1)"
    and "submission_settings (verify_settings env) platform t p = Inr stg"
  shows "submission env target url platform t p (start w)
           = submission_dispatch env stg target url
               (set_world w1 (emit Call_set_machinesdump_path (start w)))"
  using assms by (simp add: submission_def Let_def)

lemma notify_finally_log:
  "\<exists>tail. log (snd (notify_finally env s)) = log s @ Call_notify # tail
      \<and> (tail = [] \<or> (\<exists>e. tail = [Print_warning e]))"
  by (simp add: notify_finally_def Let_def print_warning_def
      split: prod.splits option.splits exn.splits)

lemma notify_finally_SubmissionError:
  assumes "notify env (world s) = (Some (SubmissionError e), w2)"
  shows "notify_finally env s = (None, print_warning e (set_world w2 (emit Call_notify s)))"
  using assms by (simp add: notify_finally_def Let_def)

lemma run_submitter_no_notify:
  assumes "Call_notify \<notin> set (log s)"
  shows "Call_notify \<notin> set (log (snd (run_submitter env stg target url s)))"
proof -
  have "\<forall>ev \<in> set (log (snd (run_submitter env stg target url s))). ev \<noteq> Call_notify"
    by (rule run_submitter_log_invariant) (use assms in auto)
  then show ?thesis by blast
qed

text \<open>
  C3, the claim as stated: every execution of the submit command issues exactly one
  notification call. A run in which \<open>set_machinesdump_path\<close> raises
  \<open>SubmissionError\<close> ends in \<open>exit_error\<close> (lines 210 to 213) and issues none.
\<close>

theorem submit_that_exits_early_never_notifies:
  "fst (submission no_dump_env [''/x''] False [] 120 1 (start 0)) = Raise (SystemExit 1)
   \<and> log (snd (submission no_dump_env [''/x''] False [] 120 1 (start 0)))
       = [Call_set_machinesdump_path, Print_error ''Submission failed: no machines dump'']
   \<and> count_list (log (snd (submission no_dump_env [''/x''] False [] 120 1 (start 0)))) Call_notify
       \<noteq> 1"
  by (simp add: submission_def Let_def no_dump_env_def sample_env_def exit_error_def
      print_error_def)

text \<open>
  C3, amended. For every execution of the submit command in which the settings are
  built (neither \<open>set_machinesdump_path\<close> nor the settings helper raises), over any
  number of targets, exactly one notification call is issued, after the result sequence
  is consumed or abandoned; the call changes no emitted result, and a
  \<open>SubmissionError\<close> it raises is printed as a warning and changes neither the results
  nor the way the command ends.
\<close>

theorem submit_notifies_once_after_the_results:
  assumes "set_machinesdump_path env w = (None, w1)"
    and "submission_settings (verify_settings env) platform t p = Inr stg"
  shows
  "(let gen = run_submitter env stg target url
                (set_world w1 (emit Call_set_machinesdump_path (start w)));
        run = submission env target url platform t p (start w)
    in count_list (log (snd run)) Call_notify = 1
       \<and> (\<exists>tail. log (snd run) = log (snd gen) @ Call_notify # tail \<and> yielded tail = [])
       \<and> results (snd run) = results (snd gen)
       \<and> (\<forall>e w2. notify env (world (snd gen)) = (Some (SubmissionError e), w2) \<longrightarrow>
             log (snd run) = log (snd gen) @ [Call_notify, Print_warning e]
             \<and> fst run = (case fst gen of None \<Rightarrow> Return () | Some x \<Rightarrow> Raise x)))"
proof -
  define s0 where "s0 = set_world w1 (emit Call_set_machinesdump_path (start w))"
  define gen where "gen = run_submitter env stg target url s0"
  define run where "run = submission env target url platform t p (start w)"
  obtain pending s1 where g: "gen = (pending, s1)" by (cases gen)
  have run_eq: "run = (after_finally pending (fst (notify_finally env s1)), snd (notify_finally env s1))"
    unfolding run_def submission_reaches_dispatch [OF assms]
    using g by (simp add: submission_dispatch_def gen_def s0_def split: prod.splits)
  obtain tail where tail: "log (snd (notify_finally env s1)) = log s1 @ Call_notify # tail"
    and shape: "tail = [] \<or> (\<exists>e. tail = [Print_warning e])"
    using notify_finally_log [of env s1] by blast
  have none: "Call_notify \<notin> set (log s1)"
    using run_submitter_no_notify [of s0 env stg target url] g by (simp add: gen_def s0_def)
  have ytail: "yielded tail = []" and ntail: "count_list tail Call_notify = 0"
    using shape by auto
  have log_run: "log (snd run) = log (snd gen) @ Call_notify # tail"
    using run_eq tail g by simp
  have count: "count_list (log (snd run)) Call_notify = 1"
    using none ntail g by (simp add: log_run)
  have res: "results (snd run) = results (snd gen)"
    by (simp add: results_def log_run yielded_append ytail)
  have warn: "log (snd run) = log (snd gen) @ [Call_notify, Print_warning e]
             \<and> fst run = (case fst gen of None \<Rightarrow> Return () | Some x \<Rightarrow> Raise x)"
    if n: "notify env (world (snd gen)) = (Some (SubmissionError e), w2)" for e w2
  proof -
    have "notify_finally env s1 = (None, print_warning e (set_world w2 (emit Call_notify s1)))"
      using notify_finally_SubmissionError [of env s1 e w2] n g by simp
    then show ?thesis
      using run_eq g by (simp add: print_warning_def after_finally_def)
  qed
  show ?thesis
    unfolding Let_def s0_def [symmetric] gen_def [symmetric] run_def [symmetric]
    using count log_run ytail res warn by blast
qed

theorem submit_notifies_once_after_the_results_witness:
  "set_machinesdump_path notify_down_env 0 = (None, 0)
   \<and> submission_settings (verify_settings notify_down_env) [] 120 1 = Inr sample_settings
   \<and> notify notify_down_env 1 = (Some (SubmissionError ''down''), 1)
   \<and> count_list (log (snd (submission notify_down_env [''/missing'', ''/x''] False [] 120 1 (start 0))))
        Call_notify = 1
   \<and> results (snd (submission notify_down_env [''/missing'', ''/x''] False [] 120 1 (start 0)))
       = [not_found ''/missing'', (Some ''id-x'', ''/x'', None)]
   \<and> log (snd (submission notify_down_env [''/missing'', ''/x''] False [] 120 1 (start 0)))
       = [Call_set_machinesdump_path,
          Call_os_path_exists ''/missing'',
          Yield (not_found ''/missing''),
          Print_error ''Failed to submit file: /missing. No such file or directory'',
          Call_enumerate_files ''/missing'',
          Call_os_path_exists ''/x'',
          Call_enumerate_files ''/x'',
          Call_submit_file ''/x'' sample_settings ''x'',
          Yield (Some ''id-x'', ''/x'', None),
          Print_info ''Submitted file: id-x -> /x'',
          Call_notify,
          Print_warning ''down'']
   \<and> fst (submission notify_down_env [''/missing'', ''/x''] False [] 120 1 (start 0)) = Return ()
   \<and> count_list (log (snd (submission notify_down_env [] True [] 120 1 (start 0)))) Call_notify = 1"
proof -
  let ?s0 = "set_world 0 (emit Call_set_machinesdump_path (start (0::nat)))"
  let ?gen = "run_submitter notify_down_env sample_settings [''/missing'', ''/x''] False ?s0"
  let ?run = "submission notify_down_env [''/missing'', ''/x''] False [] 120 1 (start 0)"
  have h1: "set_machinesdump_path notify_down_env 0 = (None, 0)"
    by (simp add: notify_down_env_def sample_env_def)
  have h2: "submission_settings (verify_settings notify_down_env) [] 120 1 = Inr sample_settings"
    by (simp add: submission_settings_eq sample_settings_def notify_down_env_def sample_env_def)
  have n: "notify notify_down_env 1 = (Some (SubmissionError ''down''), 1)"
    by (simp add: notify_down_env_def sample_env_def)
  note t = submit_notifies_once_after_the_results
      [OF h1 h2, of "[''/missing'', ''/x'']" False, unfolded Let_def]
  note t0 = submit_notifies_once_after_the_results [OF h1 h2, of "[]" True, unfolded Let_def]
  have gen_status: "fst ?gen = None" and gen_world: "world (snd ?gen) = 1"
    and gen_log: "log (snd ?gen)
       = [Call_set_machinesdump_path,
          Call_os_path_exists ''/missing'',
          Yield (not_found ''/missing''),
          Print_error ''Failed to submit file: /missing. No such file or directory'',
          Call_enumerate_files ''/missing'',
          Call_os_path_exists ''/x'',
          Call_enumerate_files ''/x'',
          Call_submit_file ''/x'' sample_settings ''x'',
          Yield (Some ''id-x'', ''/x'', None),
          Print_info ''Submitted file: id-x -> /x'']"
    by (simp_all add: run_submitter_def submit_files_def Let_def notify_down_env_def
          sample_env_def submitted_def yield_def report_def print_error_def print_info_def
          not_found_def basename_def)
  have count: "count_list (log (snd ?run)) Call_notify = 1" using t by blast
  have count0: "count_list (log (snd (submission notify_down_env [] True [] 120 1 (start 0))))
        Call_notify = 1"
    using t0 by blast
  have res: "results (snd ?run) = results (snd ?gen)" using t by blast
  have "results (snd ?gen) = [not_found ''/missing'', (Some ''id-x'', ''/x'', None)]"
    by (simp add: results_def gen_log)
  then have res': "results (snd ?run) = [not_found ''/missing'', (Some ''id-x'', ''/x'', None)]"
    using res by simp
  have n': "notify notify_down_env (world (snd ?gen)) = (Some (SubmissionError ''down''), 1)"
    using n gen_world by simp
  have "log (snd ?run) = log (snd ?gen) @ [Call_notify, Print_warning ''down'']
             \<and> fst ?run = (case fst ?gen of None \<Rightarrow> Return () | Some x \<Rightarrow> Raise x)"
    using t n' by blast
  then have fin: "log (snd ?run) = log (snd ?gen) @ [Call_notify, Print_warning ''down'']"
    and out: "fst ?run = Return ()"
    using gen_status by simp_all
  show ?thesis
    using h1 h2 n count count0 res' out fin [unfolded gen_log] by simp
qed

subsection \<open>Creating a working directory that exists\<close>

text \<open>
  C7. For every path that already exists, \<open>createcwd\<close> without \<open>--regen-configs\<close>
  and \<open>--update-directories\<close> fails with an already-exists error and the failed call
  leaves the world as it was. For a directory the command itself exits with the message
  that the path already exists, having made no collaborator call but the check; for any
  other existing path \<open>cuckoocwd.create\<close> is called and raises AlreadyExists.
\<close>

theorem createcwd_on_existing_path_fails_unchanged:
  assumes "os_path_isdir env w p \<or> exists_on_disk env w p"
    and "\<not> regen_configs" and "\<not> update_directories"
  shows
  "world (snd (create_cwd env p update_directories regen_configs (start w))) = w
   \<and> (if os_path_isdir env w p
       then fst (create_cwd env p update_directories regen_configs (start w))
              = Raise (SystemExit 1)
            \<and> log (snd (create_cwd env p update_directories regen_configs (start w)))
              = [Call_os_path_isdir p, Print_error (''Path '' @ p @ '' already exists.'')]
       else fst (create_cwd env p update_directories regen_configs (start w))
              = Raise (AlreadyExists p)
            \<and> log (snd (create_cwd env p update_directories regen_configs (start w)))
              = [Call_os_path_isdir p, Call_cwd_create p])"
proof (cases "os_path_isdir env w p")
  case True
  then show ?thesis
    using assms(2,3)
    by (simp add: create_cwd_def Let_def exit_error_def print_error_def)
next
  case False
  then have "exists_on_disk env w p" using assms(1) by simp
  then show ?thesis
    using False
    by (simp add: create_cwd_def Let_def create_cwd_fresh_def cuckoocwd_create_def)
qed

theorem createcwd_on_existing_path_fails_unchanged_witness:
  "fst (create_cwd sample_core ''/cwd'' False False (start [])) = Return ()
   \<and> world (snd (create_cwd sample_core ''/cwd'' False False (start []))) = [''/cwd'']
   \<and> os_path_isdir sample_core [''/cwd''] ''/cwd''
   \<and> world (snd (create_cwd sample_core ''/cwd'' False False (start [''/cwd'']))) = [''/cwd'']
   \<and> fst (create_cwd sample_core ''/cwd'' False False (start [''/cwd''])) = Raise (SystemExit 1)
   \<and> log (snd (create_cwd sample_core ''/cwd'' False False (start [''/cwd''])))
       = [Call_os_path_isdir ''/cwd'', Print_error ''Path /cwd already exists.'']
   \<and> exists_on_disk sample_core [] ''/etc/hosts''
   \<and> \<not> os_path_isdir sample_core [] ''/etc/hosts''
   \<and> world (snd (create_cwd sample_core ''/etc/hosts'' False False (start []))) = []
   \<and> fst (create_cwd sample_core ''/etc/hosts'' False False (start []))
       = Raise (AlreadyExists ''/etc/hosts'')"
proof -
  have first: "fst (create_cwd sample_core ''/cwd'' False False (start [])) = Return ()
      \<and> world (snd (create_cwd sample_core ''/cwd'' False False (start []))) = [''/cwd'']"
    by (simp add: create_cwd_def Let_def create_cwd_fresh_def cuckoocwd_create_def
          sample_core_def print_info_def)
  have dir: "os_path_isdir sample_core [''/cwd''] ''/cwd''"
    by (simp add: sample_core_def)
  have hosts: "exists_on_disk sample_core [] ''/etc/hosts''"
    and nodir: "\<not> os_path_isdir sample_core [] ''/etc/hosts''"
    by (simp_all add: sample_core_def)
  have h: "os_path_isdir sample_core [''/cwd''] ''/cwd'' \<or> exists_on_disk sample_core [''/cwd''] ''/cwd''"
    using dir by simp
  have h2: "os_path_isdir sample_core [] ''/etc/hosts'' \<or> exists_on_disk sample_core [] ''/etc/hosts''"
    using hosts by simp
  show ?thesis
    using first dir hosts nodir
      createcwd_on_existing_path_fails_unchanged [OF h, of False False]
      createcwd_on_existing_path_fails_unchanged [OF h2, of False False]
    by simp
qed

subsection \<open>Shutdown actions\<close>

lemma log_run_shutdowns: "log (run_shutdowns reg s) = log s @ shutdown_events reg"
proof (induction reg arbitrary: s)
  case Nil
  show ?case by simp
next
  case (Cons x reg)
  obtain a order where x: "x = (a, order)" by (cases x)
  show ?case using Cons [of "run_shutdown a s"] by (cases a) (simp_all add: x)
qed

lemma world_run_shutdowns [simp]: "world (run_shutdowns reg s) = world s"
proof (induction reg arbitrary: s)
  case Nil
  show ?case by simp
next
  case (Cons x reg)
  obtain a order where x: "x = (a, order)" by (cases x)
  show ?case using Cons [of "run_shutdown a s"] by (cases a) (simp_all add: x)
qed

lemma log_call_registered_shutdowns:
  "log (call_registered_shutdowns reg s)
     = log s @ Call_registered_shutdowns # shutdown_events (sort_key snd reg)"
  by (simp add: call_registered_shutdowns_def log_run_shutdowns)

lemma count_shutdown_events:
  "count_list (shutdown_events reg) (Run_shutdown a) = count_list (map fst reg) a"
  by (induction reg rule: shutdown_events.induct) auto

lemma count_sorted_registry:
  "count_list (map fst (sort_key snd reg)) a = count_list (map fst reg) a"
proof -
  have "mset (map fst (sort_key snd reg)) = mset (map fst reg)" by simp
  then have "count (mset (map fst (sort_key snd reg))) a = count (mset (map fst reg)) a"
    by simp
  then show ?thesis by (simp only: count_mset)
qed

lemma no_Stopmsg_by_subsystem: "count_list (map fst (by_subsystem entries)) (Stopmsg m) = 0"
  by (induction entries) (auto simp: by_subsystem_def)

lemma count_Stopmsg_ran:
  "count_list (shutdown_events (sort_key snd ((Stopmsg m, 1) # by_subsystem entries)))
     (Run_shutdown (Stopmsg m)) = 1"
  by (simp only: count_shutdown_events count_sorted_registry)
    (simp add: no_Stopmsg_by_subsystem)

lemma run_subsystem_log:
  assumes "entry (world s) lvl = ((raised, entries), w1)"
  shows "log (snd (run_subsystem entry call m failure lvl s))
           = log s @ [Call_register_shutdown (Stopmsg m) 1, call] @ startup_report failure raised
             @ Call_registered_shutdowns
               # shutdown_events (sort_key snd ((Stopmsg m, 1) # by_subsystem entries))"
    and "fst (run_subsystem entry call m failure lvl s) = startup_outcome raised"
    and "world (snd (run_subsystem entry call m failure lvl s)) = w1"
proof -
  show "log (snd (run_subsystem entry call m failure lvl s))
           = log s @ [Call_register_shutdown (Stopmsg m) 1, call] @ startup_report failure raised
             @ Call_registered_shutdowns
               # shutdown_events (sort_key snd ((Stopmsg m, 1) # by_subsystem entries))"
    using assms
    by (cases raised rule: startup_outcome.cases)
      (simp_all add: run_subsystem_def register_shutdown_def Let_def exit_error_def
        print_error_def log_call_registered_shutdowns)
  show "fst (run_subsystem entry call m failure lvl s) = startup_outcome raised"
    using assms
    by (cases raised rule: startup_outcome.cases)
      (simp_all add: run_subsystem_def register_shutdown_def Let_def exit_error_def)
  show "world (snd (run_subsystem entry call m failure lvl s)) = w1"
    using assms
    by (cases raised rule: startup_outcome.cases)
      (simp_all add: run_subsystem_def register_shutdown_def Let_def exit_error_def
        print_error_def call_registered_shutdowns_def)
qed

lemma no_register_in_shutdown_events:
  "Call_register_shutdown a order \<notin> set (shutdown_events reg)"
  by (induction reg rule: shutdown_events.induct) auto

lemma startup_report_events:
  "ev \<in> set (startup_report failure raised) \<Longrightarrow> \<exists>msg. ev = Print_error msg"
  by (cases raised rule: startup_outcome.cases) auto

lemma subsystem_block_ran_once:
  assumes pre: "\<forall>ev \<in> set pre. (\<forall>a order. ev \<noteq> Call_register_shutdown a order)
                                  \<and> (\<forall>a. ev \<noteq> Run_shutdown a)"
    and call: "\<forall>a. call \<noteq> Run_shutdown a" "\<forall>a order. call \<noteq> Call_register_shutdown a order"
    and evs: "evs = pre @ [Call_register_shutdown (Stopmsg m) 1, call]
                @ startup_report failure raised
                @ Call_registered_shutdowns
                  # shutdown_events (sort_key snd ((Stopmsg m, 1) # by_subsystem entries))"
  shows "\<forall>a order. Call_register_shutdown a order \<in> set evs
           \<longrightarrow> count_list evs (Run_shutdown a) = 1"
proof (intro allI impI)
  fix a order
  assume reg: "Call_register_shutdown a order \<in> set evs"
  define tail where
    "tail = shutdown_events (sort_key snd ((Stopmsg m, 1) # by_subsystem entries))"
  have evs': "evs = pre @ [Call_register_shutdown (Stopmsg m) 1, call]
                @ startup_report failure raised @ Call_registered_shutdowns # tail"
    unfolding evs tail_def by (rule refl)
  have tail: "count_list tail (Run_shutdown (Stopmsg m)) = 1"
    unfolding tail_def by (rule count_Stopmsg_ran)
  have no_reg: "Call_register_shutdown a order \<notin> set tail"
    unfolding tail_def by (rule no_register_in_shutdown_events)
  have rep: "Call_register_shutdown a order \<notin> set (startup_report failure raised)"
    using startup_report_events [of "Call_register_shutdown a order" failure raised] by auto
  have "a = Stopmsg m"
    using reg pre call(2) rep no_reg unfolding evs' by auto
  moreover have "count_list pre (Run_shutdown (Stopmsg m)) = 0"
    using pre by (simp add: count_list_0_iff) blast
  moreover have "count_list (startup_report failure raised) (Run_shutdown (Stopmsg m)) = 0"
    using startup_report_events [of "Run_shutdown (Stopmsg m)" failure raised]
    by (auto simp: count_list_0_iff)
  ultimately show "count_list evs (Run_shutdown a) = 1"
    using call(1) tail unfolding evs' by simp
qed

lemma main_runs_core:
  assumes "cwd = (if \<not> truthy_str cwd_opt then cuckoocwd_DEFAULT env else the cwd_opt)"
    and "cuckoocwd_exists env w cwd" and "cuckoocwd_set env w cwd = (None, w1)"
    and "\<not> truthy_str invoked_subcommand" and "monitor_exists env w1"
    and "lvl = (if verbose then VERBOSE else if debug then DEBUG
                else if quiet then WARNING else INFO)"
    and "s4 = \<lparr>world = w1, log = [Call_cwd_exists cwd, Call_cwd_set cwd, Call_monitor_exists]\<rparr>"
  shows "main env cwd_opt distributed debug quiet verbose invoked_subcommand (start w)
           = (case (if distributed
                    then run_subsystem (start_cuckoo_controller env)
                           (Call_start_cuckoo_controller lvl)
                           ''Stopping Cuckoo..'' ''Failure during Cuckoo startup: '' lvl s4
                    else run_subsystem (start_cuckoo env) (Call_start_cuckoo lvl)
                           ''Stopping Cuckoo..'' ''Failure during Cuckoo startup: '' lvl s4) of
                (Return u, s5) \<Rightarrow> (Return None, s5)
              | (Raise x, s5) \<Rightarrow> (Raise x, s5))"
proof -
  have s4: "emit Call_monitor_exists (set_world w1 (emit (Call_cwd_set cwd)
              (emit (Call_cwd_exists cwd) (start w)))) = s4"
    by (simp add: assms(7) emit_def set_world_def start_def)
  have sub: "invoked_subcommand \<noteq> Some ''createcwd''"
    using assms(4) by (auto simp: truthy_str_def)
  show ?thesis
    unfolding main_def Let_def assms(1) [symmetric] assms(6) [symmetric]
    using assms(2-5) sub by (simp add: s4)
qed

lemma main_core_log:
  assumes a1: "cwd = (if \<not> truthy_str cwd_opt then cuckoocwd_DEFAULT env else the cwd_opt)"
    and a2: "cuckoocwd_exists env w cwd" and a3: "cuckoocwd_set env w cwd = (None, w1)"
    and a4: "\<not> truthy_str invoked_subcommand" and a5: "monitor_exists env w1"
    and a6: "lvl = (if verbose then VERBOSE else if debug then DEBUG
                else if quiet then WARNING else INFO)"
    and a7: "(if distributed then start_cuckoo_controller env w1 lvl else start_cuckoo env w1 lvl)
         = ((raised, entries), w2)"
    and run: "run = main env cwd_opt distributed debug quiet verbose invoked_subcommand (start w)"
  shows "log (snd run)
              = [Call_cwd_exists cwd, Call_cwd_set cwd, Call_monitor_exists]
                @ [Call_register_shutdown (Stopmsg ''Stopping Cuckoo..'') 1,
                   (if distributed then Call_start_cuckoo_controller lvl else Call_start_cuckoo lvl)]
                @ startup_report ''Failure during Cuckoo startup: '' raised
                @ Call_registered_shutdowns
                  # shutdown_events
                      (sort_key snd ((Stopmsg ''Stopping Cuckoo..'', 1) # by_subsystem entries))"
    and "fst run = (case startup_outcome raised of Return u \<Rightarrow> Return None | Raise x \<Rightarrow> Raise x)"
proof -
  define s4 :: "'a st" where
    "s4 = \<lparr>world = w1, log = [Call_cwd_exists cwd, Call_cwd_set cwd, Call_monitor_exists]\<rparr>"
  define entry where
    "entry = (if distributed then start_cuckoo_controller env else start_cuckoo env)"
  define call where
    "call = (if distributed then Call_start_cuckoo_controller lvl else Call_start_cuckoo lvl)"
  define blk where
    "blk = run_subsystem entry call ''Stopping Cuckoo..'' ''Failure during Cuckoo startup: '' lvl s4"
  have e: "entry (world s4) lvl = ((raised, entries), w2)"
  proof (cases distributed)
    case True
    then show ?thesis using a7 by (simp add: entry_def s4_def)
  next
    case False
    then show ?thesis using a7 by (simp add: entry_def s4_def)
  qed
  have "run = (case blk of (Return u, s5) \<Rightarrow> (Return None, s5) | (Raise x, s5) \<Rightarrow> (Raise x, s5))"
    unfolding run blk_def entry_def call_def
      main_runs_core [OF a1 a2 a3 a4 a5 a6 s4_def, of distributed]
    by (cases distributed) simp_all
  then have snd_run: "snd run = snd blk"
    and out: "fst run = (case fst blk of Return u \<Rightarrow> Return None | Raise x \<Rightarrow> Raise x)"
    by (simp_all split: prod.splits outcome.splits)
  show "log (snd run)
              = [Call_cwd_exists cwd, Call_cwd_set cwd, Call_monitor_exists]
                @ [Call_register_shutdown (Stopmsg ''Stopping Cuckoo..'') 1,
                   (if distributed then Call_start_cuckoo_controller lvl else Call_start_cuckoo lvl)]
                @ startup_report ''Failure during Cuckoo startup: '' raised
                @ Call_registered_shutdowns
                  # shutdown_events
                      (sort_key snd ((Stopmsg ''Stopping Cuckoo..'', 1) # by_subsystem entries))"
    unfolding snd_run blk_def run_subsystem_log(1) [where entry = entry and s = s4, OF e]
    by (simp add: s4_def call_def)
  have "fst blk = startup_outcome raised"
    unfolding blk_def by (rule run_subsystem_log(2) [where entry = entry and s = s4, OF e])
  then show "fst run = (case startup_outcome raised of Return u \<Rightarrow> Return None | Raise x \<Rightarrow> Raise x)"
    using out by simp
qed

lemma importmode_log:
  assumes a: "\<not> truthy_str invoked_subcommand"
    and e: "start_importmode env w lvl = ((raised, entries), w2)"
    and run: "run = importmode env lvl invoked_subcommand (start w)"
  shows "log (snd run)
              = [] @ [Call_register_shutdown (Stopmsg ''Stopping import mode..'') 1,
                 Call_start_importmode lvl]
                @ startup_report ''Failure during import mode startup: '' raised
                @ Call_registered_shutdowns
                  # shutdown_events
                      (sort_key snd ((Stopmsg ''Stopping import mode..'', 1) # by_subsystem entries))"
    and "fst run = startup_outcome raised"
proof -
  have e': "start_importmode env (world (start w)) lvl = ((raised, entries), w2)"
    using e by simp
  have r: "run = run_subsystem (start_importmode env) (Call_start_importmode lvl)
             ''Stopping import mode..'' ''Failure during import mode startup: '' lvl (start w)"
    using a by (simp add: run importmode_def)
  show "log (snd run)
              = [] @ [Call_register_shutdown (Stopmsg ''Stopping import mode..'') 1,
                 Call_start_importmode lvl]
                @ startup_report ''Failure during import mode startup: '' raised
                @ Call_registered_shutdowns
                  # shutdown_events
                      (sort_key snd ((Stopmsg ''Stopping import mode..'', 1) # by_subsystem entries))"
    unfolding r run_subsystem_log(1) [where entry = "start_importmode env" and s = "start w", OF e']
    by simp
  show "fst run = startup_outcome raised"
    unfolding r
    by (rule run_subsystem_log(2) [where entry = "start_importmode env" and s = "start w", OF e'])
qed

lemma main_ran_once:
  "\<forall>a order. Call_register_shutdown a order
       \<in> set (log (snd (main env cwd_opt distributed debug quiet verbose invoked_subcommand (start w))))
     \<longrightarrow> count_list
           (log (snd (main env cwd_opt distributed debug quiet verbose invoked_subcommand (start w))))
           (Run_shutdown a) = 1"
proof -
  define cwd where "cwd = (if \<not> truthy_str cwd_opt then cuckoocwd_DEFAULT env else the cwd_opt)"
  define lvl where "lvl = (if verbose then VERBOSE else if debug then DEBUG
                else if quiet then WARNING else INFO)"
  define run where
    "run = main env cwd_opt distributed debug quiet verbose invoked_subcommand (start w)"
  obtain r w1 where set: "cuckoocwd_set env w cwd = (r, w1)"
    by (cases "cuckoocwd_set env w cwd")
  obtain raised entries w2 where
    entry: "(if distributed then start_cuckoo_controller env w1 lvl else start_cuckoo env w1 lvl)
         = ((raised, entries), w2)"
    by (cases "if distributed then start_cuckoo_controller env w1 lvl else start_cuckoo env w1 lvl")
      auto
  consider (absent) "\<not> cuckoocwd_exists env w cwd"
    | (invalid) x where "cuckoocwd_exists env w cwd" "r = Some x"
    | (subcommand) "cuckoocwd_exists env w cwd" "r = None" "truthy_str invoked_subcommand"
    | (no_monitor) "cuckoocwd_exists env w cwd" "r = None" "\<not> truthy_str invoked_subcommand"
        "\<not> monitor_exists env w1"
    | (core) "cuckoocwd_exists env w cwd" "r = None" "\<not> truthy_str invoked_subcommand"
        "monitor_exists env w1"
    by (cases r) auto
  then have "\<forall>a order. Call_register_shutdown a order \<in> set (log (snd run))
     \<longrightarrow> count_list (log (snd run)) (Run_shutdown a) = 1"
  proof cases
    case absent
    then show ?thesis
      unfolding run_def main_def Let_def cwd_def [symmetric]
      by (simp add: exit_error_def print_error_def)
  next
    case (invalid x)
    then show ?thesis
      unfolding run_def main_def Let_def cwd_def [symmetric]
      using set by (cases x) (simp_all add: exit_error_def print_error_def)
  next
    case subcommand
    then show ?thesis
      unfolding run_def main_def Let_def cwd_def [symmetric]
      using set by simp
  next
    case no_monitor
    then show ?thesis
      unfolding run_def main_def Let_def cwd_def [symmetric]
      using set by (simp add: exit_error_def print_error_def)
  next
    case core
    have set': "cuckoocwd_set env w cwd = (None, w1)" using set core(2) by simp
    note lg = main_core_log(1) [OF cwd_def core(1) set' core(3) core(4) lvl_def entry run_def]
    show ?thesis
      by (rule subsystem_block_ran_once [OF _ _ _ lg]) auto
  qed
  then show ?thesis unfolding run_def .
qed

lemma importmode_ran_once:
  "\<forall>a order. Call_register_shutdown a order
       \<in> set (log (snd (importmode env lvl invoked_subcommand (start w))))
     \<longrightarrow> count_list (log (snd (importmode env lvl invoked_subcommand (start w))))
           (Run_shutdown a) = 1"
proof (cases "truthy_str invoked_subcommand")
  case True
  then show ?thesis by (simp add: importmode_def)
next
  case False
  obtain raised entries w2 where e: "start_importmode env w lvl = ((raised, entries), w2)"
    by (cases "start_importmode env w lvl") auto
  note lg = importmode_log(1) [OF False e refl]
  show ?thesis
    by (rule subsystem_block_ran_once [OF _ _ _ lg]) auto
qed

text \<open>
  C8. In the default run mode, standalone or distributed, and in import mode, every
  shutdown action registered before the blocking subsystem call is executed exactly once
  on exit, when the entry point returns normally and when it raises \<open>StartupError\<close>
  (which is reported, and the process exits with status 1). In every run of \<open>main\<close>
  and of \<open>importmode\<close>, every action whose registration is in the log is run exactly
  once in it. Once the command reaches the subsystem block, its log is the registration,
  the call of the entry point, the report of a failed startup if there was one, and then
  the single call of the registered shutdowns with the actions it runs; the command
  returns if the entry point returned and exits with status 1 if it raised
  \<open>StartupError\<close>.
\<close>

theorem registered_shutdown_actions_run_once:
  "(\<forall>a order. Call_register_shutdown a order
        \<in> set (log (snd (main env cwd_opt distributed debug quiet verbose invoked_subcommand (start w))))
      \<longrightarrow> count_list
            (log (snd (main env cwd_opt distributed debug quiet verbose invoked_subcommand (start w))))
            (Run_shutdown a) = 1)
   \<and> (\<forall>a order. Call_register_shutdown a order
        \<in> set (log (snd (importmode env lvl invoked_subcommand (start w))))
      \<longrightarrow> count_list (log (snd (importmode env lvl invoked_subcommand (start w))))
            (Run_shutdown a) = 1)
   \<and> (cwd = (if \<not> truthy_str cwd_opt then cuckoocwd_DEFAULT env else the cwd_opt)
     \<and> cuckoocwd_exists env w cwd \<and> cuckoocwd_set env w cwd = (None, w1)
     \<and> \<not> truthy_str invoked_subcommand \<and> monitor_exists env w1
     \<and> lvl = (if verbose then VERBOSE else if debug then DEBUG
                else if quiet then WARNING else INFO)
     \<and> (if distributed then start_cuckoo_controller env w1 lvl else start_cuckoo env w1 lvl)
         = ((raised, entries), w2)
    \<longrightarrow> (let run = main env cwd_opt distributed debug quiet verbose invoked_subcommand (start w)
         in log (snd run)
              = [Call_cwd_exists cwd, Call_cwd_set cwd, Call_monitor_exists,
                 Call_register_shutdown (Stopmsg ''Stopping Cuckoo..'') 1,
                 (if distributed then Call_start_cuckoo_controller lvl else Call_start_cuckoo lvl)]
                @ startup_report ''Failure during Cuckoo startup: '' raised
                @ Call_registered_shutdowns
                  # shutdown_events
                      (sort_key snd ((Stopmsg ''Stopping Cuckoo..'', 1) # by_subsystem entries))
            \<and> count_list (log (snd run)) (Run_shutdown (Stopmsg ''Stopping Cuckoo..'')) = 1
            \<and> (raised = None \<longrightarrow> fst run = Return None)
            \<and> (\<forall>e. raised = Some (StartupError e) \<longrightarrow> fst run = Raise (SystemExit 1))))
   \<and> (\<not> truthy_str invoked_subcommand \<and> start_importmode env w lvl = ((raised, entries), w2)
    \<longrightarrow> (let run = importmode env lvl invoked_subcommand (start w)
         in log (snd run)
              = [Call_register_shutdown (Stopmsg ''Stopping import mode..'') 1,
                 Call_start_importmode lvl]
                @ startup_report ''Failure during import mode startup: '' raised
                @ Call_registered_shutdowns
                  # shutdown_events
                      (sort_key snd ((Stopmsg ''Stopping import mode..'', 1) # by_subsystem entries))
            \<and> count_list (log (snd run)) (Run_shutdown (Stopmsg ''Stopping import mode..'')) = 1
            \<and> (raised = None \<longrightarrow> fst run = Return ())
            \<and> (\<forall>e. raised = Some (StartupError e) \<longrightarrow> fst run = Raise (SystemExit 1))))"
proof (intro conjI impI)
  show "\<forall>a order. Call_register_shutdown a order
        \<in> set (log (snd (main env cwd_opt distributed debug quiet verbose invoked_subcommand (start w))))
      \<longrightarrow> count_list
            (log (snd (main env cwd_opt distributed debug quiet verbose invoked_subcommand (start w))))
            (Run_shutdown a) = 1"
    by (rule main_ran_once)
next
  show "\<forall>a order. Call_register_shutdown a order
        \<in> set (log (snd (importmode env lvl invoked_subcommand (start w))))
      \<longrightarrow> count_list (log (snd (importmode env lvl invoked_subcommand (start w))))
            (Run_shutdown a) = 1"
    by (rule importmode_ran_once)
next
  assume a: "cwd = (if \<not> truthy_str cwd_opt then cuckoocwd_DEFAULT env else the cwd_opt)
     \<and> cuckoocwd_exists env w cwd \<and> cuckoocwd_set env w cwd = (None, w1)
     \<and> \<not> truthy_str invoked_subcommand \<and> monitor_exists env w1
     \<and> lvl = (if verbose then VERBOSE else if debug then DEBUG
                else if quiet then WARNING else INFO)
     \<and> (if distributed then start_cuckoo_controller env w1 lvl else start_cuckoo env w1 lvl)
         = ((raised, entries), w2)"
  define run where
    "run = main env cwd_opt distributed debug quiet verbose invoked_subcommand (start w)"
  have a1: "cwd = (if \<not> truthy_str cwd_opt then cuckoocwd_DEFAULT env else the cwd_opt)"
    and a2: "cuckoocwd_exists env w cwd" and a3: "cuckoocwd_set env w cwd = (None, w1)"
    and a4: "\<not> truthy_str invoked_subcommand" and a5: "monitor_exists env w1"
    and a6: "lvl = (if verbose then VERBOSE else if debug then DEBUG
                else if quiet then WARNING else INFO)"
    and a7: "(if distributed then start_cuckoo_controller env w1 lvl else start_cuckoo env w1 lvl)
         = ((raised, entries), w2)"
    using a by blast+
  note lg = main_core_log(1) [OF a1 a2 a3 a4 a5 a6 a7 run_def]
  note out = main_core_log(2) [OF a1 a2 a3 a4 a5 a6 a7 run_def]
  have reg: "Call_register_shutdown (Stopmsg ''Stopping Cuckoo..'') 1 \<in> set (log (snd run))"
    unfolding lg by simp
  have once: "count_list (log (snd run)) (Run_shutdown (Stopmsg ''Stopping Cuckoo..'')) = 1"
    using main_ran_once [of env cwd_opt distributed debug quiet verbose invoked_subcommand w] reg
    unfolding run_def by blast
  show "let run = main env cwd_opt distributed debug quiet verbose invoked_subcommand (start w)
         in log (snd run)
              = [Call_cwd_exists cwd, Call_cwd_set cwd, Call_monitor_exists,
                 Call_register_shutdown (Stopmsg ''Stopping Cuckoo..'') 1,
                 (if distributed then Call_start_cuckoo_controller lvl else Call_start_cuckoo lvl)]
                @ startup_report ''Failure during Cuckoo startup: '' raised
                @ Call_registered_shutdowns
                  # shutdown_events
                      (sort_key snd ((Stopmsg ''Stopping Cuckoo..'', 1) # by_subsystem entries))
            \<and> count_list (log (snd run)) (Run_shutdown (Stopmsg ''Stopping Cuckoo..'')) = 1
            \<and> (raised = None \<longrightarrow> fst run = Return None)
            \<and> (\<forall>e. raised = Some (StartupError e) \<longrightarrow> fst run = Raise (SystemExit 1))"
    unfolding Let_def run_def [symmetric]
  proof (intro conjI)
    show "log (snd run)
              = [Call_cwd_exists cwd, Call_cwd_set cwd, Call_monitor_exists,
                 Call_register_shutdown (Stopmsg ''Stopping Cuckoo..'') 1,
                 (if distributed then Call_start_cuckoo_controller lvl else Call_start_cuckoo lvl)]
                @ startup_report ''Failure during Cuckoo startup: '' raised
                @ Call_registered_shutdowns
                  # shutdown_events
                      (sort_key snd ((Stopmsg ''Stopping Cuckoo..'', 1) # by_subsystem entries))"
      unfolding lg by simp
    show "count_list (log (snd run)) (Run_shutdown (Stopmsg ''Stopping Cuckoo..'')) = 1"
      by (rule once)
    show "raised = None \<longrightarrow> fst run = Return None" by (simp add: out)
    show "\<forall>e. raised = Some (StartupError e) \<longrightarrow> fst run = Raise (SystemExit 1)"
      by (simp add: out)
  qed
next
  assume a: "\<not> truthy_str invoked_subcommand \<and> start_importmode env w lvl = ((raised, entries), w2)"
  define run where "run = importmode env lvl invoked_subcommand (start w)"
  note lg = importmode_log(1) [OF a [THEN conjunct1] a [THEN conjunct2] run_def]
  note out = importmode_log(2) [OF a [THEN conjunct1] a [THEN conjunct2] run_def]
  have reg: "Call_register_shutdown (Stopmsg ''Stopping import mode..'') 1 \<in> set (log (snd run))"
    unfolding lg by simp
  have once: "count_list (log (snd run)) (Run_shutdown (Stopmsg ''Stopping import mode..'')) = 1"
    using importmode_ran_once [of env lvl invoked_subcommand w] reg
    unfolding run_def by blast
  show "let run = importmode env lvl invoked_subcommand (start w)
         in log (snd run)
              = [Call_register_shutdown (Stopmsg ''Stopping import mode..'') 1,
                 Call_start_importmode lvl]
                @ startup_report ''Failure during import mode startup: '' raised
                @ Call_registered_shutdowns
                  # shutdown_events
                      (sort_key snd ((Stopmsg ''Stopping import mode..'', 1) # by_subsystem entries))
            \<and> count_list (log (snd run)) (Run_shutdown (Stopmsg ''Stopping import mode..'')) = 1
            \<and> (raised = None \<longrightarrow> fst run = Return ())
            \<and> (\<forall>e. raised = Some (StartupError e) \<longrightarrow> fst run = Raise (SystemExit 1))"
    unfolding Let_def run_def [symmetric]
  proof (intro conjI)
    show "log (snd run)
              = [Call_register_shutdown (Stopmsg ''Stopping import mode..'') 1,
                 Call_start_importmode lvl]
                @ startup_report ''Failure during import mode startup: '' raised
                @ Call_registered_shutdowns
                  # shutdown_events
                      (sort_key snd ((Stopmsg ''Stopping import mode..'', 1) # by_subsystem entries))"
      unfolding lg by simp
    show "count_list (log (snd run)) (Run_shutdown (Stopmsg ''Stopping import mode..'')) = 1"
      by (rule once)
    show "raised = None \<longrightarrow> fst run = Return ()" by (simp add: out)
    show "\<forall>e. raised = Some (StartupError e) \<longrightarrow> fst run = Raise (SystemExit 1)"
      by (simp add: out)
  qed
qed

theorem registered_shutdown_actions_run_once_witness:
  "cuckoocwd_exists sample_core [''/home/cuckoo/.cuckoocwd''] ''/home/cuckoo/.cuckoocwd''
   \<and> monitor_exists sample_core [''/home/cuckoo/.cuckoocwd'']
   \<and> start_cuckoo sample_core [''/home/cuckoo/.cuckoocwd''] INFO
       = ((None, [(7, 0), (8, 5)]), [''/home/cuckoo/.cuckoocwd''])
   \<and> log (snd (main sample_core None False False False False None
                  (start [''/home/cuckoo/.cuckoocwd''])))
       = [Call_cwd_exists ''/home/cuckoo/.cuckoocwd'', Call_cwd_set ''/home/cuckoo/.cuckoocwd'',
          Call_monitor_exists,
          Call_register_shutdown (Stopmsg ''Stopping Cuckoo..'') 1,
          Call_start_cuckoo INFO,
          Call_registered_shutdowns,
          Run_shutdown (Registered_by_subsystem 7),
          Run_shutdown (Stopmsg ''Stopping Cuckoo..''), Print ''Stopping Cuckoo..'',
          Run_shutdown (Registered_by_subsystem 8)]
   \<and> count_list (log (snd (main sample_core None False False False False None
                  (start [''/home/cuckoo/.cuckoocwd''])))) (Run_shutdown (Stopmsg ''Stopping Cuckoo..'')) = 1
   \<and> fst (main sample_core None False False False False None
                  (start [''/home/cuckoo/.cuckoocwd''])) = Return None
   \<and> start_cuckoo_controller sample_core [''/home/cuckoo/.cuckoocwd''] INFO
       = ((Some (StartupError ''no nodes''), []), [''/home/cuckoo/.cuckoocwd''])
   \<and> log (snd (main sample_core None True False False False None
                  (start [''/home/cuckoo/.cuckoocwd''])))
       = [Call_cwd_exists ''/home/cuckoo/.cuckoocwd'', Call_cwd_set ''/home/cuckoo/.cuckoocwd'',
          Call_monitor_exists,
          Call_register_shutdown (Stopmsg ''Stopping Cuckoo..'') 1,
          Call_start_cuckoo_controller INFO,
          Print_error ''Failure during Cuckoo startup: no nodes'',
          Call_registered_shutdowns,
          Run_shutdown (Stopmsg ''Stopping Cuckoo..''), Print ''Stopping Cuckoo..'']
   \<and> fst (main sample_core None True False False False None
                  (start [''/home/cuckoo/.cuckoocwd''])) = Raise (SystemExit 1)
   \<and> log (snd (importmode sample_core INFO None (start [''/home/cuckoo/.cuckoocwd''])))
       = [Call_register_shutdown (Stopmsg ''Stopping import mode..'') 1,
          Call_start_importmode INFO,
          Call_registered_shutdowns,
          Run_shutdown (Stopmsg ''Stopping import mode..''), Print ''Stopping import mode..'']
   \<and> fst (importmode sample_core INFO None (start [''/home/cuckoo/.cuckoocwd''])) = Return ()"
proof -
  let ?D = "''/home/cuckoo/.cuckoocwd''"
  let ?run1 = "main sample_core None False False False False None (start [?D])"
  let ?run2 = "main sample_core None True False False False None (start [?D])"
  let ?run3 = "importmode sample_core INFO None (start [?D])"
  have ex: "cuckoocwd_exists sample_core [?D] ?D" and mon: "monitor_exists sample_core [?D]"
    and st: "start_cuckoo sample_core [?D] INFO = ((None, [(7, 0), (8, 5)]), [?D])"
    and stc: "start_cuckoo_controller sample_core [?D] INFO
                = ((Some (StartupError ''no nodes''), []), [?D])"
    and sti: "start_importmode sample_core [?D] INFO = ((None, []), [?D])"
    and cs: "cuckoocwd_set sample_core [?D] ?D = (None, [?D])"
    and df: "cuckoocwd_DEFAULT sample_core = ?D"
    by (simp_all add: sample_core_def)
  have h1: "?D = (if \<not> truthy_str None then cuckoocwd_DEFAULT sample_core else the None)
     \<and> cuckoocwd_exists sample_core [?D] ?D \<and> cuckoocwd_set sample_core [?D] ?D = (None, [?D])
     \<and> \<not> truthy_str None \<and> monitor_exists sample_core [?D]
     \<and> INFO = (if False then VERBOSE else if False then DEBUG
                else if False then WARNING else INFO)
     \<and> (if False then start_cuckoo_controller sample_core [?D] INFO
         else start_cuckoo sample_core [?D] INFO)
         = ((None, [(7, 0), (8, 5)]), [?D])"
    using ex mon st cs df by (simp add: truthy_str_def)
  have h2: "?D = (if \<not> truthy_str None then cuckoocwd_DEFAULT sample_core else the None)
     \<and> cuckoocwd_exists sample_core [?D] ?D \<and> cuckoocwd_set sample_core [?D] ?D = (None, [?D])
     \<and> \<not> truthy_str None \<and> monitor_exists sample_core [?D]
     \<and> INFO = (if False then VERBOSE else if False then DEBUG
                else if False then WARNING else INFO)
     \<and> (if True then start_cuckoo_controller sample_core [?D] INFO
         else start_cuckoo sample_core [?D] INFO)
         = ((Some (StartupError ''no nodes''), []), [?D])"
    using ex mon stc cs df by (simp add: truthy_str_def)
  have h3: "\<not> truthy_str None
     \<and> start_importmode sample_core [?D] INFO = ((None, []), [?D])"
    using sti by (simp add: truthy_str_def)
  note t1 = registered_shutdown_actions_run_once
      [where cwd = ?D and cwd_opt = None and env = sample_core and w = "[?D]" and ?w1.0 = "[?D]"
         and invoked_subcommand = None and lvl = INFO and verbose = False and debug = False
         and quiet = False and distributed = False and raised = None
         and entries = "[(7, 0), (8, 5)]" and ?w2.0 = "[?D]", unfolded Let_def]
  note t2 = registered_shutdown_actions_run_once
      [where cwd = ?D and cwd_opt = None and env = sample_core and w = "[?D]" and ?w1.0 = "[?D]"
         and invoked_subcommand = None and lvl = INFO and verbose = False and debug = False
         and quiet = False and distributed = True and raised = "Some (StartupError ''no nodes'')"
         and entries = "[]" and ?w2.0 = "[?D]", unfolded Let_def]
  note t3 = registered_shutdown_actions_run_once
      [where env = sample_core and w = "[?D]" and invoked_subcommand = None and lvl = INFO
         and raised = None and entries = "[]" and ?w2.0 = "[?D]", unfolded Let_def]
  note r1 = mp [OF t1 [THEN conjunct2, THEN conjunct2, THEN conjunct1] h1]
  note r2 = mp [OF t2 [THEN conjunct2, THEN conjunct2, THEN conjunct1] h2]
  note r3 = mp [OF t3 [THEN conjunct2, THEN conjunct2, THEN conjunct2] h3]
  have l1: "log (snd ?run1)
       = [Call_cwd_exists ?D, Call_cwd_set ?D, Call_monitor_exists,
          Call_register_shutdown (Stopmsg ''Stopping Cuckoo..'') 1,
          Call_start_cuckoo INFO,
          Call_registered_shutdowns,
          Run_shutdown (Registered_by_subsystem 7),
          Run_shutdown (Stopmsg ''Stopping Cuckoo..''), Print ''Stopping Cuckoo..'',
          Run_shutdown (Registered_by_subsystem 8)]"
    using r1 [THEN conjunct1] by (simp add: by_subsystem_def)
  have c1: "count_list (log (snd ?run1)) (Run_shutdown (Stopmsg ''Stopping Cuckoo..'')) = 1"
    by (rule r1 [THEN conjunct2, THEN conjunct1])
  have o1: "fst ?run1 = Return None"
    using r1 [THEN conjunct2, THEN conjunct2, THEN conjunct1] by simp
  have l2: "log (snd ?run2)
       = [Call_cwd_exists ?D, Call_cwd_set ?D, Call_monitor_exists,
          Call_register_shutdown (Stopmsg ''Stopping Cuckoo..'') 1,
          Call_start_cuckoo_controller INFO,
          Print_error ''Failure during Cuckoo startup: no nodes'',
          Call_registered_shutdowns,
          Run_shutdown (Stopmsg ''Stopping Cuckoo..''), Print ''Stopping Cuckoo..'']"
    using r2 [THEN conjunct1] by (simp add: by_subsystem_def)
  have o2: "fst ?run2 = Raise (SystemExit 1)"
    using r2 [THEN conjunct2, THEN conjunct2, THEN conjunct2] by simp
  have l3: "log (snd ?run3)
       = [Call_register_shutdown (Stopmsg ''Stopping import mode..'') 1,
          Call_start_importmode INFO,
          Call_registered_shutdowns,
          Run_shutdown (Stopmsg ''Stopping import mode..''), Print ''Stopping import mode..'']"
    using r3 [THEN conjunct1] by (simp add: by_subsystem_def)
  have o3: "fst ?run3 = Return ()"
    using r3 [THEN conjunct2, THEN conjunct2, THEN conjunct1] by simp
  show ?thesis
    using ex mon st stc l1 c1 o1 l2 o2 l3 o3 by blast
qed

end
